theory Spec2Isabelle
  imports Complex_Main "HOL-Library.Word" "HOL-Library.Char_ord" "HOL-Library.List_Lexorder"
begin

unbundle bit_operations_syntax

section \<open>Parameter map (\<^verbatim>\<open>src/io/ParameterMap.cpp\<close>)\<close>

subsection \<open>Characters and the C library\<close>

text \<open>
  \<^verbatim>\<open>std::isspace\<close>, \<^verbatim>\<open>std::isalnum\<close> and the decimal digits in the C locale.
  A \<^verbatim>\<open>std::string\<close> or C string is a \<^typ>\<open>string\<close>; the strings handed to the parser are
  C strings, so they hold no NUL character.
\<close>

definition isspace :: "char \<Rightarrow> bool" where
  "isspace c = (c = CHR '' '' \<or> c = CHR 0x09 \<or> c = CHR 0x0A \<or> c = CHR 0x0B
     \<or> c = CHR 0x0C \<or> c = CHR 0x0D)"

definition isdigit :: "char \<Rightarrow> bool" where
  "isdigit c = (CHR ''0'' \<le> c \<and> c \<le> CHR ''9'')"

definition isalnum :: "char \<Rightarrow> bool" where
  "isalnum c = (isdigit c \<or> (CHR ''a'' \<le> c \<and> c \<le> CHR ''z'') \<or> (CHR ''A'' \<le> c \<and> c \<le> CHR ''Z''))"

definition LLONG_MAX :: int where
  "LLONG_MAX = 2 ^ 63 - 1"

definition LLONG_MIN :: int where
  "LLONG_MIN = - (2 ^ 63)"

text \<open>The value of a run of decimal digits, most significant digit first.\<close>

definition digits_val :: "string \<Rightarrow> int" where
  "digits_val ds = foldl (\<lambda>acc c. 10 * acc + (int (of_char c) - 48)) 0 ds"

text \<open>
  \<^verbatim>\<open>std::strtoll(nptr, &endptr, 10)\<close> of the C library, on a 64-bit \<^verbatim>\<open>long long\<close>:
  leading white space is skipped, then an optional sign, then the longest run of decimal
  digits. With no digit, no conversion is performed: the result is 0 and \<^verbatim>\<open>endptr\<close> is
  \<^verbatim>\<open>nptr\<close>. A value out of range is clamped and \<^verbatim>\<open>errno\<close> is set to \<^verbatim>\<open>ERANGE\<close>.
  The model returns the converted number, the offset of \<^verbatim>\<open>endptr\<close> from \<^verbatim>\<open>nptr\<close>, and
  whether \<^verbatim>\<open>errno\<close> is \<^verbatim>\<open>ERANGE\<close> afterwards (the caller resets it to 0 before).
\<close>

definition strtoll :: "string \<Rightarrow> int \<times> nat \<times> bool" where
  "strtoll nptr =
     (let ws = takeWhile isspace nptr;
          r = dropWhile isspace nptr;
          neg = (r \<noteq> [] \<and> hd r = CHR ''-'');
          sgn = (if r \<noteq> [] \<and> (hd r = CHR ''-'' \<or> hd r = CHR ''+'') then 1 else 0);
          ds = takeWhile isdigit (drop sgn r);
          v = (if neg then - digits_val ds else digits_val ds);
          endptr = length ws + sgn + length ds
      in if ds = [] then (0, 0, False)
         else if LLONG_MAX < v then (LLONG_MAX, endptr, True)
         else if v < LLONG_MIN then (LLONG_MIN, endptr, True)
         else (v, endptr, False))"

subsection \<open>Conversion of parameter values\<close>

datatype TypeErr = none | generic | boolean | out_of_range

text \<open>
  \<^verbatim>\<open>param_details::try_bool_\<close> and \<^verbatim>\<open>param_details::try_int64_\<close> (a constant name
  cannot end with an underscore here, so the models are \<open>try_bool\<close> and \<open>try_int64\<close>).
  The conversions return the error kind; the second component is what was written to
  the output argument \<^verbatim>\<open>val\<close> (\<open>None\<close> when the function returns before writing it).
\<close>

definition try_bool :: "string \<Rightarrow> TypeErr \<times> bool option" where
  "try_bool str =
     (if str = ''true'' then (none, Some True)
      else if str = ''false'' then (none, Some False)
      else (boolean, None))"

text \<open>
  The branch under \<^verbatim>\<open>#if (LLONG_MIN != INT64_MIN) || (LLONG_MAX != INT64_MAX)\<close> is compiled
  out where \<^verbatim>\<open>long long\<close> has 64 bits, which is what \<open>strtoll\<close> above models.
\<close>

definition try_int64 :: "string \<Rightarrow> TypeErr \<times> int option" where
  "try_int64 str =
     (case strtoll str of (tmp, ptr_end, erange) \<Rightarrow>
        if erange then (out_of_range, None)
        else if length str \<noteq> ptr_end then (generic, None)
        else (none, Some tmp))"

text \<open>
  The strings the spec calls base-10 integers, in the syntax \<^verbatim>\<open>strtoll\<close> reads: optional
  white space, an optional sign and at least one digit, with nothing after the digits.
\<close>

definition base10_integer :: "string \<Rightarrow> bool" where
  "base10_integer s =
     (let r = dropWhile isspace s;
          t = (if r \<noteq> [] \<and> (hd r = CHR ''-'' \<or> hd r = CHR ''+'') then tl r else r)
      in t \<noteq> [] \<and> list_all isdigit t)"

definition base10_value :: "string \<Rightarrow> int" where
  "base10_value s =
     (let r = dropWhile isspace s
      in if r \<noteq> [] \<and> hd r = CHR ''-'' then - digits_val (tl r)
         else if r \<noteq> [] \<and> hd r = CHR ''+'' then digits_val (tl r)
         else digits_val r)"

subsection \<open>Splitting and trimming lines\<close>

text \<open>\<^verbatim>\<open>std::string_view::find(ch)\<close>: the position of the first occurrence, \<open>None\<close> for \<^verbatim>\<open>npos\<close>.\<close>

fun find_char :: "char \<Rightarrow> string \<Rightarrow> nat option" where
  "find_char ch [] = None"
| "find_char ch (c # cs) =
     (if c = ch then Some 0 else map_option Suc (find_char ch cs))"

text \<open>
  \<^verbatim>\<open>std::string::rfind(ch, pos)\<close>: the last occurrence at a position not after \<open>pos\<close>.
\<close>

fun rfind :: "char \<Rightarrow> string \<Rightarrow> nat \<Rightarrow> nat option" where
  "rfind ch s 0 = (if s \<noteq> [] \<and> s ! 0 = ch then Some 0 else None)"
| "rfind ch s (Suc n) =
     (if Suc n < length s \<and> s ! Suc n = ch then Some (Suc n) else rfind ch s n)"

text \<open>
  The pair of views \<^verbatim>\<open>KeyValueViews\<close>. The three edge cases are tested in the order of the
  source; with \<^verbatim>\<open>pos == npos\<close> the sum \<^verbatim>\<open>pos + 1\<close> wraps to 0, which equals the size only
  for the empty buffer, where the result is the empty pair anyway.
\<close>

definition Try_Extract_Key_Value_View :: "string \<Rightarrow> string \<times> string" where
  "Try_Extract_Key_Value_View buffer =
     (case find_char CHR ''='' buffer of
        None \<Rightarrow> ([], [])
      | Some pos \<Rightarrow>
          if pos = 0 \<or> pos + 1 = length buffer then ([], [])
          else (take pos buffer, drop (pos + 1) buffer))"

definition rstrip :: "string \<Rightarrow> string" where
  "rstrip s = rev (dropWhile isspace (rev s))"

definition my_trim :: "string \<Rightarrow> string" where
  "my_trim s = rstrip (dropWhile isspace s)"

text \<open>
  The buffers without a usable \<^verbatim>\<open>=\<close>: the character is absent, or it is the first
  character, or the first \<^verbatim>\<open>=\<close> of the buffer is its last character. The buffer is what
  \<^verbatim>\<open>Try_Extract_Key_Value_View\<close> is given: a command-line argument, or what \<^verbatim>\<open>fgets\<close> read,
  which for a line of the file ends with the newline of the line.
\<close>

definition no_key_value :: "string \<Rightarrow> bool" where
  "no_key_value buffer =
     (CHR ''='' \<notin> set buffer \<or> (buffer \<noteq> [] \<and> hd buffer = CHR ''='')
      \<or> (buffer \<noteq> [] \<and> last buffer = CHR ''='' \<and> CHR ''='' \<notin> set (butlast buffer)))"

subsection \<open>Names of tables and parameters\<close>

text \<open>
  \<^verbatim>\<open>ParameterMap::ParamEntry\<close>, and the \<^verbatim>\<open>std::map\<close> of the entries as the list of its
  pairs in iteration order, which is the order of the keys (\<^verbatim>\<open>std::less\<close> on
  \<^verbatim>\<open>std::string\<close>: lexicographic on the bytes). \<open>map_assign\<close> is the assignment
  \<^verbatim>\<open>entries_[key] = entry\<close>, \<open>map_of\<close> the lookup \<^verbatim>\<open>entries_.find(key)\<close>.
\<close>

record ParamEntry =
  param_str :: string
  accessed :: bool

type_synonym param_entries = "(string \<times> ParamEntry) list"

fun map_assign :: "string \<Rightarrow> ParamEntry \<Rightarrow> param_entries \<Rightarrow> param_entries" where
  "map_assign k e [] = [(k, e)]"
| "map_assign k e ((k', e') # es) =
     (if k < k' then (k, e) # (k', e') # es
      else if k = k' then (k, e) # es
      else (k', e') # map_assign k e es)"

text \<open>
  The messages of \<^verbatim>\<open>Process_Full_Name\<close>, as values; the empty message (no problem) is
  \<open>None\<close>.
\<close>

datatype name_err =
    unallowed_character
  | ends_with_dot
  | starts_with_dot
  | contiguous_dots
  | collides_with_parameter string

lemma rfind_le: "rfind ch s n = Some pos \<Longrightarrow> pos \<le> n"
  by (induction n) (auto split: if_splits)

text \<open>
  The \<^verbatim>\<open>while (true)\<close> loop of \<^verbatim>\<open>Process_Full_Name\<close>. The set of tables is passed by
  reference in the source, so the model returns it with the message: a prefix is
  inserted before the collision with a parameter is tested.
\<close>

function Process_Full_Name_loop ::
  "string \<Rightarrow> nat \<Rightarrow> nat \<Rightarrow> string set \<Rightarrow> param_entries \<Rightarrow> name_err option \<times> string set"
where
  "Process_Full_Name_loop full_name size_minus_1 rfind_start full_table_set entries =
     (case rfind CHR ''.'' full_name rfind_start of
        None \<Rightarrow> (None, full_table_set)
      | Some pos \<Rightarrow>
          if pos = size_minus_1 then (Some ends_with_dot, full_table_set)
          else if pos = 0 then (Some starts_with_dot, full_table_set)
          else if pos = rfind_start then (Some contiguous_dots, full_table_set)
          else if take pos full_name \<in> full_table_set then (None, full_table_set)
          else if map_of entries (take pos full_name) \<noteq> None
            then (Some (collides_with_parameter (take pos full_name)),
                  insert (take pos full_name) full_table_set)
          else Process_Full_Name_loop full_name size_minus_1 (pos - 1)
                 (insert (take pos full_name) full_table_set) entries)"
  by pat_completeness auto
termination
  by (relation "measure (\<lambda>(full_name, size_minus_1, rfind_start, full_table_set, entries). rfind_start)")
     (auto dest: rfind_le)

definition Process_Full_Name ::
  "string \<Rightarrow> string set \<Rightarrow> param_entries \<Rightarrow> name_err option \<times> string set"
where
  "Process_Full_Name full_name full_table_set entries =
     (if filter (\<lambda>ch. ch \<noteq> CHR ''.'' \<and> ch \<noteq> CHR ''_'' \<and> ch \<noteq> CHR ''-'' \<and> \<not> isalnum ch) full_name \<noteq> []
      then (Some unallowed_character, full_table_set)
      else Process_Full_Name_loop full_name (length full_name - 1) (length full_name - 1)
             full_table_set entries)"

subsection \<open>The constructor\<close>

text \<open>
  The state of the constructor while it reads: the entries, the two sets of tables, the
  current heading, and what \<^verbatim>\<open>chprintf\<close> has printed. An exception leaves the constructor,
  so a failed construction is \<open>Inl\<close> of the error and no map exists.
\<close>

record parse_state =
  entries :: param_entries
  explicit_tables :: "string set"
  all_tables :: "string set"
  cur_table_header :: string
  printed :: "string list"

datatype parse_error =
    bad_header
  | empty_header
  | header_appears_more_than_once string
  | header_collides_with_parameter string
  | header_name_problem string name_err
  | key_contains_dot string
  | param_name_problem string name_err
  | cli_name_problem string name_err

definition initial_state :: parse_state where
  "initial_state = \<lparr>entries = [], explicit_tables = {}, all_tables = {},
     cur_table_header = [], printed = []\<rparr>"

text \<open>The branch \<^verbatim>\<open>buff[0] == '['\<close>: a heading such as \<^verbatim>\<open>[my_table]\<close>.\<close>

definition parse_header :: "string \<Rightarrow> parse_state \<Rightarrow> parse_error + parse_state" where
  "parse_header buff st =
     (let view = rstrip buff in
      if last view \<noteq> CHR '']'' then Inl bad_header
      else let header = take (length view - 2) (drop 1 view) in
        if header = [] then Inl empty_header
        else if header \<in> explicit_tables st then Inl (header_appears_more_than_once header)
        else if map_of (entries st) header \<noteq> None then Inl (header_collides_with_parameter header)
        else (case Process_Full_Name header (all_tables st) (entries st) of
                (Some msg, tables) \<Rightarrow> Inl (header_name_problem header msg)
              | (None, tables) \<Rightarrow>
                  Inr (st\<lparr>cur_table_header := header,
                          explicit_tables := insert header (explicit_tables st),
                          all_tables := insert header tables\<rparr>)))"

text \<open>
  The \<^verbatim>\<open>else\<close> branch: a name/value pair from a line of the file. The two exceptions
  for a name that \<^verbatim>\<open>Process_Full_Name\<close> rejects differ in their wording only and are one
  error here.
\<close>

definition parse_param :: "string \<Rightarrow> parse_state \<Rightarrow> parse_error + parse_state" where
  "parse_param buff st =
     (case Try_Extract_Key_Value_View buff of (key, val) \<Rightarrow>
        if key = [] then Inr st
        else if find_char CHR ''.'' key \<noteq> None then Inl (key_contains_dot key)
        else let full_param_name =
                   (if cur_table_header st \<noteq> [] then cur_table_header st @ ''.'' else []) @ key in
          (case Process_Full_Name full_param_name (all_tables st) (entries st) of
             (None, tables) \<Rightarrow>
               Inr (st\<lparr>entries := map_assign full_param_name
                                     \<lparr>param_str = my_trim val, accessed = False\<rparr> (entries st),
                       all_tables := tables\<rparr>)
           | (Some msg, tables) \<Rightarrow> Inl (param_name_problem full_param_name msg)))"

text \<open>
  One pass of the \<^verbatim>\<open>while (fgets ...)\<close> loop on the buffer \<^verbatim>\<open>buff\<close> that \<^verbatim>\<open>fgets\<close> filled
  (a line of the file with its newline, or a piece of a line longer than the buffer).
\<close>

definition parse_line :: "string \<Rightarrow> parse_state \<Rightarrow> parse_error + parse_state" where
  "parse_line buff st =
     (if buff \<noteq> [] \<and> (hd buff = CHR 0x0A \<or> hd buff = CHR ''#'' \<or> hd buff = CHR '';'') then Inr st
      else if buff \<noteq> [] \<and> hd buff = CHR ''['' then parse_header buff st
      else parse_param buff st)"

text \<open>
  The buffers that take the heading branch, and the name between the brackets that the
  branch reads from them.
\<close>

definition is_heading :: "string \<Rightarrow> bool" where
  "is_heading buff = (buff \<noteq> [] \<and> hd buff = CHR ''['')"

definition heading_of :: "string \<Rightarrow> string" where
  "heading_of buff = take (length (rstrip buff) - 2) (drop 1 (rstrip buff))"

fun parse_file :: "string list \<Rightarrow> parse_state \<Rightarrow> parse_error + parse_state" where
  "parse_file [] st = Inr st"
| "parse_file (buff # rest) st =
     (case parse_line buff st of Inl e \<Rightarrow> Inl e | Inr st' \<Rightarrow> parse_file rest st')"

text \<open>One pass of the loop over \<^verbatim>\<open>argv\<close>.\<close>

definition parse_arg :: "string \<Rightarrow> parse_state \<Rightarrow> parse_error + parse_state" where
  "parse_arg arg st =
     (case Try_Extract_Key_Value_View arg of (key, val) \<Rightarrow>
        if key = [] then Inr st
        else (case Process_Full_Name key (all_tables st) (entries st) of
                (Some msg, tables) \<Rightarrow> Inl (cli_name_problem key msg)
              | (None, tables) \<Rightarrow>
                  Inr (st\<lparr>entries := map_assign key
                                        \<lparr>param_str = my_trim val, accessed = False\<rparr> (entries st),
                          all_tables := tables,
                          printed := printed st @
                            [''Override with '' @ key @ ''='' @ my_trim val @ [CHR 0x0A]]\<rparr>)))"

fun parse_args :: "string list \<Rightarrow> parse_state \<Rightarrow> parse_error + parse_state" where
  "parse_args [] st = Inr st"
| "parse_args (arg # rest) st =
     (case parse_arg arg st of Inl e \<Rightarrow> Inl e | Inr st' \<Rightarrow> parse_args rest st')"

text \<open>
  \<^verbatim>\<open>ParameterMap::ParameterMap(fp, argc, argv)\<close> on the buffers read from \<^verbatim>\<open>fp\<close> and the
  arguments: the entries of the constructed map, or the error thrown.
\<close>

definition ParameterMap :: "string list \<Rightarrow> string list \<Rightarrow> parse_error + param_entries" where
  "ParameterMap file_lines argv =
     (case parse_file file_lines initial_state of
        Inl e \<Rightarrow> Inl e
      | Inr st \<Rightarrow> (case parse_args argv st of Inl e \<Rightarrow> Inl e | Inr st' \<Rightarrow> Inr (entries st')))"

subsection \<open>Unused parameters\<close>

text \<open>
  \<^verbatim>\<open>warn_unused_parameters\<close>: the loop over the entries in the order of the map.
  \<^verbatim>\<open>CHOLLA_ERROR\<close> ends the program with its message; \<^verbatim>\<open>chprintf\<close> prints a line. The result
  is how the call ends together with the lines printed. The counter is an \<^verbatim>\<open>int\<close> in
  the source; it counts entries of the map and is a \<^typ>\<open>nat\<close> here.
\<close>

datatype warn_result = Returned nat | Aborted string

definition unknown_pair_msg :: "string \<Rightarrow> string \<Rightarrow> string" where
  "unknown_pair_msg name v = name @ ''/'' @ v @ '':  Unknown parameter/value pair!''"

fun warn_loop ::
  "param_entries \<Rightarrow> string set \<Rightarrow> bool \<Rightarrow> bool \<Rightarrow> nat \<Rightarrow> string list \<Rightarrow> warn_result \<times> string list"
where
  "warn_loop [] ignore_params abort_on_warning suppress_warning_msg unused_params out =
     (Returned unused_params, out)"
| "warn_loop ((name, param_entry) # rest) ignore_params abort_on_warning suppress_warning_msg
     unused_params out =
     (if \<not> accessed param_entry \<and> name \<notin> ignore_params then
        (if abort_on_warning then (Aborted (unknown_pair_msg name (param_str param_entry)), out)
         else if \<not> suppress_warning_msg then
           warn_loop rest ignore_params abort_on_warning suppress_warning_msg (Suc unused_params)
             (out @ [''WARNING: '' @ unknown_pair_msg name (param_str param_entry) @ [CHR 0x0A]])
         else warn_loop rest ignore_params abort_on_warning suppress_warning_msg
                (Suc unused_params) out)
      else warn_loop rest ignore_params abort_on_warning suppress_warning_msg unused_params out)"

definition warn_unused_parameters ::
  "param_entries \<Rightarrow> string set \<Rightarrow> bool \<Rightarrow> bool \<Rightarrow> warn_result \<times> string list"
where
  "warn_unused_parameters es ignore_params abort_on_warning suppress_warning_msg =
     warn_loop es ignore_params abort_on_warning suppress_warning_msg 0 []"

text \<open>The line printed for an entry.\<close>

definition warning_line :: "string \<times> ParamEntry \<Rightarrow> string" where
  "warning_line kv = ''WARNING: '' @ unknown_pair_msg (fst kv) (param_str (snd kv)) @ [CHR 0x0A]"

text \<open>The entries the loop counts: never accessed, and not in the set to ignore.\<close>

definition unused :: "string set \<Rightarrow> string \<times> ParamEntry \<Rightarrow> bool" where
  "unused ignore_params kv = (\<not> accessed (snd kv) \<and> fst kv \<notin> ignore_params)"

section \<open>Exact Riemann solver (\<^verbatim>\<open>exact.cpp\<close>)\<close>

subsection \<open>Arithmetic\<close>

text \<open>
  \<^verbatim>\<open>Real\<close> is a floating-point type in the source. The model computes in \<^typ>\<open>real\<close>: it is
  the computation of the source without rounding, and it follows the source wherever
  every operation of the run has a finite result (no division by zero, no square root
  and no non-integral power of a negative number, no negative power of zero).
  \<^verbatim>\<open>sqrt\<close>, \<^verbatim>\<open>fabs\<close> and \<^verbatim>\<open>fmax\<close> are \<^term>\<open>sqrt\<close>, \<^term>\<open>abs\<close> and \<^term>\<open>max\<close>.

  \<^verbatim>\<open>pow(x, y)\<close> of the C library: \<open>x powr y\<close> for a positive base; for a base that is not
  positive, the integral power when \<open>y\<close> is an integer (negative for a negative base
  and odd \<open>y\<close>) and 0 for a zero base with a positive exponent. The remaining case, a
  negative base with a non-integral exponent, is a NaN in C and has no meaning here.
\<close>

definition c_pow :: "real \<Rightarrow> real \<Rightarrow> real" where
  "c_pow x y =
     (if 0 < x then x powr y
      else if of_int \<lfloor>y\<rfloor> = y then x powi \<lfloor>y\<rfloor>
      else 0)"

definition TOL :: real where
  "TOL = 1 / 10 ^ 6"

definition nriter :: nat where
  "nriter = 20"

subsection \<open>The guess, the pressure functions and the Newton iteration\<close>

definition guessp ::
  "real \<Rightarrow> real \<Rightarrow> real \<Rightarrow> real \<Rightarrow> real \<Rightarrow> real \<Rightarrow> real \<Rightarrow> real \<Rightarrow> real \<Rightarrow> real"
where
  "guessp dl vxl pl cl dr vxr pr cr gamma =
     (let ppv0 = 0.5 * (pl + pr) + 0.125 * (vxl - vxr) * (dl + dr) * (cl + cr);
          ppv = (if ppv0 < 0 then 0 else ppv0);
          gl = sqrt ((2 / ((gamma + 1) * dl)) / (((gamma - 1) / (gamma + 1)) * pl + ppv));
          gr = sqrt ((2 / ((gamma + 1) * dr)) / (((gamma - 1) / (gamma + 1)) * pr + ppv));
          p_0 = (gl * pl + gr * pr - (vxr - vxl)) / (gl + gr)
      in if p_0 < 0 then TOL else p_0)"

text \<open>\<^verbatim>\<open>prefun\<close> returns the pair \<open>(f, fd)\<close> it writes through its first two arguments.\<close>

definition prefun :: "real \<Rightarrow> real \<Rightarrow> real \<Rightarrow> real \<Rightarrow> real \<Rightarrow> real \<times> real" where
  "prefun p dk pk ck gamma =
     (if p \<le> pk then
        (let pratio = p / pk in
           ((2 / (gamma - 1)) * ck * (c_pow pratio ((gamma - 1) / (2 * gamma)) - 1),
            (1 / (dk * ck)) * c_pow pratio (- ((gamma + 1) / (2 * gamma)))))
      else
        (let ak = (2 / (gamma + 1)) / dk;
             bk = ((gamma - 1) / (gamma + 1)) * pk;
             qrt = sqrt (ak / (bk + p))
         in ((p - pk) * qrt, (1 - 0.5 * (p - pk) / (bk + p)) * qrt)))"

text \<open>
  What \<^verbatim>\<open>starpu\<close> leaves behind: the pressure \<^verbatim>\<open>*p\<close> and the velocity \<^verbatim>\<open>*u\<close> of the star
  region, and for the record the final value of the loop counter \<^verbatim>\<open>i\<close> and the number
  of times the body of the loop ran.
\<close>

record star_region =
  star_p :: real
  star_u :: real
  final_i :: nat
  iterations :: nat

text \<open>
  The loop \<^verbatim>\<open>for (i = 0; i <= nriter; i++)\<close> of \<^verbatim>\<open>starpu\<close>, entered at counter \<open>i\<close> with
  \<open>i \<le> nriter\<close> (the test holds at \<open>i = 0\<close>, so the body runs at least once): one
  pass of the body, then either the \<^verbatim>\<open>break\<close>, or the increment and the test. The
  loop leaves \<^verbatim>\<open>*p\<close>, \<^verbatim>\<open>fl\<close> and \<^verbatim>\<open>fr\<close> of its last pass, from which the velocity is
  computed after it.
\<close>

function starpu_loop ::
  "nat \<Rightarrow> real \<Rightarrow> real \<Rightarrow> real \<Rightarrow> real \<Rightarrow> real \<Rightarrow> real \<Rightarrow> real \<Rightarrow> real \<Rightarrow> real \<Rightarrow> real \<Rightarrow> star_region"
where
  "starpu_loop i pold dl vxl pl cl dr vxr pr cr gamma =
     (let (fl, fld) = prefun pold dl pl cl gamma;
          (fr, frd) = prefun pold dr pr cr gamma;
          p = pold - (fl + fr + vxr - vxl) / (fld + frd);
          change = 2 * \<bar>(p - pold) / (p + pold)\<bar>
      in if change \<le> TOL
         then \<lparr>star_p = p, star_u = 0.5 * (vxl + vxr + fr - fl), final_i = i, iterations = i + 1\<rparr>
         else let p' = (if p < 0 then TOL else p) in
           if i + 1 \<le> nriter
           then starpu_loop (i + 1) p' dl vxl pl cl dr vxr pr cr gamma
           else \<lparr>star_p = p', star_u = 0.5 * (vxl + vxr + fr - fl), final_i = i + 1,
                  iterations = i + 1\<rparr>)"
  by pat_completeness auto
termination
  by (relation "measure (\<lambda>(i, pold, dl, vxl, pl, cl, dr, vxr, pr, cr, gamma). nriter - i)") auto

declare starpu_loop.simps [simp del]

definition starpu ::
  "real \<Rightarrow> real \<Rightarrow> real \<Rightarrow> real \<Rightarrow> real \<Rightarrow> real \<Rightarrow> real \<Rightarrow> real \<Rightarrow> real \<Rightarrow> star_region"
where
  "starpu dl vxl pl cl dr vxr pr cr gamma =
     starpu_loop 0 (guessp dl vxl pl cl dr vxr pr cr gamma) dl vxl pl cl dr vxr pr cr gamma"

subsection \<open>Sampling at the interface\<close>

text \<open>\<^verbatim>\<open>sample\<close> returns the triple \<open>(d, u, p)\<close> it writes through its pointers.\<close>

definition sample ::
  "real \<Rightarrow> real \<Rightarrow> real \<Rightarrow> real \<Rightarrow> real \<Rightarrow> real \<Rightarrow> real \<Rightarrow> real \<Rightarrow> real \<Rightarrow> real \<Rightarrow> real
   \<Rightarrow> real \<times> real \<times> real"
where
  "sample pm vm dl vxl pl cl dr vxr pr cr gamma =
     (if vm \<ge> 0 then
        (if pm \<le> pl then
           (if vxl - cl \<ge> 0 then (dl, vxl, pl)
            else let cml = cl * c_pow (pm / pl) ((gamma - 1) / (2 * gamma)) in
              if vm - cml < 0 then (dl * c_pow (pm / pl) (1 / gamma), vm, pm)
              else let c = (2 / (gamma + 1)) * (cl + ((gamma - 1) / 2) * vxl) in
                (dl * c_pow (c / cl) (2 / (gamma - 1)),
                 (2 / (gamma + 1)) * (cl + ((gamma - 1) / 2) * vxl),
                 pl * c_pow (c / cl) (2 * gamma / (gamma - 1))))
         else
           (let pml = pm / pl;
                sl = vxl - cl * sqrt (((gamma + 1) / (2 * gamma)) * pml + ((gamma - 1) / (2 * gamma)))
            in if sl \<ge> 0 then (dl, vxl, pl)
               else (dl * (pml + ((gamma - 1) / (gamma + 1))) / (pml * ((gamma - 1) / (gamma + 1)) + 1),
                     vm, pm)))
      else
        (if pm > pr then
           (let pmr = pm / pr;
                sr = vxr + cr * sqrt (((gamma + 1) / (2 * gamma)) * pmr + ((gamma - 1) / (2 * gamma)))
            in if sr \<le> 0 then (dr, vxr, pr)
               else (dr * (pmr + ((gamma - 1) / (gamma + 1))) / (pmr * ((gamma - 1) / (gamma + 1)) + 1),
                     vm, pm))
         else
           (if vxr + cr \<le> 0 then (dr, vxr, pr)
            else let cmr = cr * c_pow (pm / pr) ((gamma - 1) / (2 * gamma)) in
              if vm + cmr \<ge> 0 then (dr * c_pow (pm / pr) (1 / gamma), vm, pm)
              else let c = (2 / (gamma + 1)) * (cr - ((gamma - 1) / 2) * vxr) in
                (dr * c_pow (c / cr) (2 / (gamma - 1)),
                 (2 / (gamma + 1)) * (- cr + ((gamma - 1) / 2) * vxr),
                 pr * c_pow (c / cr) (2 * gamma / (gamma - 1))))))"

subsection \<open>The fluxes\<close>

text \<open>
  The local variables of \<^verbatim>\<open>Calculate_Exact_Fluxes\<close> once the interface has been sampled:
  the primitive variables of the two sides (the pressures after \<^verbatim>\<open>fmax\<close>), the star
  region, and the sampled density, velocity and pressure. The input array \<^verbatim>\<open>cW\<close> is a
  list read by index, with the two entries of the dual energy (\<^verbatim>\<open>DE\<close> defined) at 10
  and 11. \<^verbatim>\<open>TINY_NUMBER\<close> comes from \<^verbatim>\<open>global.h\<close>, which is not among the sources at hand:
  it is a parameter.
\<close>

record exact_locals =
  dl :: real
  vxl :: real
  vyl :: real
  vzl :: real
  pl :: real
  cl :: real
  gel :: real
  dr :: real
  vxr :: real
  vyr :: real
  vzr :: real
  pr :: real
  cr :: real
  ger :: real
  pm :: real
  um :: real
  newton_iterations :: nat
  ds :: real
  us :: real
  ps :: real

definition exact_sampled :: "real \<Rightarrow> real list \<Rightarrow> real \<Rightarrow> exact_locals" where
  "exact_sampled TINY_NUMBER cW gamma =
     (let dl = cW ! 0;
          dr = cW ! 1;
          vxl = cW ! 2 / dl;
          vxr = cW ! 3 / dr;
          vyl = cW ! 4 / dl;
          vyr = cW ! 5 / dr;
          vzl = cW ! 6 / dl;
          vzr = cW ! 7 / dr;
          pl = max ((cW ! 8 - 0.5 * dl * (vxl * vxl + vyl * vyl + vzl * vzl)) * (gamma - 1)) TINY_NUMBER;
          pr = max ((cW ! 9 - 0.5 * dr * (vxr * vxr + vyr * vyr + vzr * vzr)) * (gamma - 1)) TINY_NUMBER;
          gel = cW ! 10 / dl;
          ger = cW ! 11 / dr;
          cl = sqrt (gamma * pl / dl);
          cr = sqrt (gamma * pr / dr);
          star = starpu dl vxl pl cl dr vxr pr cr gamma;
          (d, u, p) = sample (star_p star) (star_u star) dl vxl pl cl dr vxr pr cr gamma
      in \<lparr>dl = dl, vxl = vxl, vyl = vyl, vzl = vzl, pl = pl, cl = cl, gel = gel,
          dr = dr, vxr = vxr, vyr = vyr, vzr = vzr, pr = pr, cr = cr, ger = ger,
          pm = star_p star, um = star_u star, newton_iterations = iterations star,
          ds = d, us = u, ps = p\<rparr>)"

text \<open>The array \<^verbatim>\<open>fluxes\<close> as the list of its six entries.\<close>

definition Calculate_Exact_Fluxes :: "real \<Rightarrow> real list \<Rightarrow> real \<Rightarrow> real list" where
  "Calculate_Exact_Fluxes TINY_NUMBER cW gamma =
     (let w = exact_sampled TINY_NUMBER cW gamma in
      if us w \<ge> 0 then
        (let Es = (ps w / (gamma - 1)) + 0.5 * ds w * (us w * us w + vyl w * vyl w + vzl w * vzl w)
         in [ds w * us w, ds w * us w * us w + ps w, ds w * us w * vyl w, ds w * us w * vzl w,
             (Es + ps w) * us w, ds w * us w * gel w])
      else
        (let Es = (ps w / (gamma - 1)) + 0.5 * ds w * (us w * us w + vyr w * vyr w + vzr w * vzr w)
         in [ds w * us w, ds w * us w * us w + ps w, ds w * us w * vyr w, ds w * us w * vzr w,
             (Es + ps w) * us w, ds w * us w * ger w]))"

text \<open>
  The conserved input of one state \<open>(\<rho>, v\<^sub>x, v\<^sub>y, v\<^sub>z, p)\<close> with specific internal energy
  \<open>ge\<close>, and the array \<^verbatim>\<open>cW\<close> that interleaves a left and a right state.
\<close>

definition total_energy :: "real \<Rightarrow> real \<Rightarrow> real \<Rightarrow> real \<Rightarrow> real \<Rightarrow> real \<Rightarrow> real" where
  "total_energy gamma rho vx vy vz p = p / (gamma - 1) + 0.5 * rho * (vx * vx + vy * vy + vz * vz)"

definition cW_of ::
  "real \<Rightarrow> real \<times> real \<times> real \<times> real \<times> real \<times> real \<Rightarrow> real \<times> real \<times> real \<times> real \<times> real \<times> real \<Rightarrow> real list"
where
  "cW_of gamma L R =
     (case (L, R) of ((rl, ul, vl, wl, ql, el), (rr, ur, vr, wr, qr, er)) \<Rightarrow>
        [rl, rr, rl * ul, rr * ur, rl * vl, rr * vr, rl * wl, rr * wr,
         total_energy gamma rl ul vl wl ql, total_energy gamma rr ur vr wr qr,
         rl * el, rr * er])"

section \<open>Round-off comparison (\<^verbatim>\<open>testing_utilities.cpp\<close>)\<close>

text \<open>
  A \<^verbatim>\<open>double\<close> is its 64 bits (IEEE 754 binary64: a sign bit, 11 bits of exponent, 52 bits
  of fraction), which is what \<^verbatim>\<open>std::memcpy\<close> copies into the \<^verbatim>\<open>int64_t\<close>. A NaN has all
  exponent bits set and a fraction that is not zero; an infinity has all exponent bits
  set and a zero fraction. The comparison \<^verbatim>\<open>a == b\<close> of two doubles holds when neither is
  a NaN and either the bits are the same or both are zeros (of either sign).
\<close>

type_synonym double = "64 word"

definition isnan :: "double \<Rightarrow> bool" where
  "isnan a = (a AND 0x7FF0000000000000 = 0x7FF0000000000000 \<and> a AND 0x000FFFFFFFFFFFFF \<noteq> 0)"

definition isinf :: "double \<Rightarrow> bool" where
  "isinf a = (a AND 0x7FFFFFFFFFFFFFFF = 0x7FF0000000000000)"

definition double_eq :: "double \<Rightarrow> double \<Rightarrow> bool" where
  "double_eq a b =
     (\<not> isnan a \<and> \<not> isnan b \<and> (a = b \<or> (a AND 0x7FFFFFFFFFFFFFFF = 0 \<and> b AND 0x7FFFFFFFFFFFFFFF = 0)))"

definition maxInt :: "64 word" where
  "maxInt = 0x7FFFFFFFFFFFFFFF"

text \<open>\<^verbatim>\<open>ulpsDistanceDbl\<close>; the arithmetic on \<^verbatim>\<open>int64_t\<close> is that of 64-bit words.\<close>

definition ulpsDistanceDbl :: "double \<Rightarrow> double \<Rightarrow> 64 word" where
  "ulpsDistanceDbl a b =
     (if double_eq a b then 0
      else if isnan a \<or> isnan b then maxInt
      else if isinf a \<or> isinf b then maxInt
      else let ia = a; ib = b in
        if (ia <s 0) \<noteq> (ib <s 0) then maxInt
        else let distance = ia - ib in
          if distance <s 0 then - distance else distance)"

text \<open>
  \<^verbatim>\<open>nearlyEqualDbl\<close>. The subtraction and the comparison of doubles are those of the
  floating-point unit and are parameters here: \<open>abs_diff a b\<close> is the double
  \<^verbatim>\<open>std::abs(a - b)\<close>, and \<open>le x y\<close> is \<^verbatim>\<open>x <= y\<close> on doubles. The result is the returned
  truth value with the two differences written through the reference arguments. The
  \<^verbatim>\<open>int\<close> \<^verbatim>\<open>ulpsEpsilon\<close> is converted to \<^verbatim>\<open>int64_t\<close> for the comparison.
\<close>

definition nearlyEqualDbl ::
  "(double \<Rightarrow> double \<Rightarrow> double) \<Rightarrow> (double \<Rightarrow> double \<Rightarrow> bool) \<Rightarrow> double \<Rightarrow> double \<Rightarrow> double \<Rightarrow> 32 word
   \<Rightarrow> bool \<times> double \<times> 64 word"
where
  "nearlyEqualDbl abs_diff le a b fixedEpsilon ulpsEpsilon =
     (let ulpsDiff = ulpsDistanceDbl a b;
          absoluteDiff = abs_diff a b
      in if sint ulpsDiff \<le> sint ulpsEpsilon then (True, absoluteDiff, ulpsDiff)
         else if le absoluteDiff fixedEpsilon then (True, absoluteDiff, ulpsDiff)
         else (False, absoluteDiff, ulpsDiff))"

text \<open>The default tolerances: the double nearest to \<open>10\<^sup>-\<^sup>1\<^sup>4\<close>, and 4 units in the last place.\<close>

definition fixedEpsilon_default :: double where
  "fixedEpsilon_default = 0x3D06849B86A12B9B"

definition ulpsEpsilon_default :: "32 word" where
  "ulpsEpsilon_default = 4"

section \<open>Properties of the parameter map\<close>

subsection \<open>Lines and arguments without a key\<close>

lemma find_char_Some_iff:
  "(find_char c s = Some pos) = (pos < length s \<and> s ! pos = c \<and> c \<notin> set (take pos s))"
proof (induction s arbitrary: pos)
  case Nil
  then show ?case by simp
next
  case (Cons x xs)
  show ?case
  proof (cases pos)
    case 0
    then show ?thesis by auto
  next
    case (Suc n)
    then show ?thesis using Cons.IH [of n] by auto
  qed
qed

lemma find_char_None_iff: "(find_char c s = None) = (c \<notin> set s)"
  by (induction s) auto

lemma Try_Extract_empty_key_iff:
  "(fst (Try_Extract_Key_Value_View buffer) = []) = no_key_value buffer"
proof (cases "find_char CHR ''='' buffer")
  case None
  then have "CHR ''='' \<notin> set buffer"
    by (simp add: find_char_None_iff)
  then show ?thesis
    using None by (simp add: Try_Extract_Key_Value_View_def no_key_value_def)
next
  case (Some pos)
  then have p: "pos < length buffer" "buffer ! pos = CHR ''=''" "CHR ''='' \<notin> set (take pos buffer)"
    by (simp_all add: find_char_Some_iff)
  then have ne: "buffer \<noteq> []"
    by auto
  have mem: "CHR ''='' \<in> set buffer"
    using p(1,2) nth_mem by fastforce
  have first: "(pos = 0) = (hd buffer = CHR ''='')"
  proof
    assume "pos = 0" with p ne show "hd buffer = CHR ''=''" by (simp add: hd_conv_nth)
  next
    assume h: "hd buffer = CHR ''=''"
    show "pos = 0"
    proof (rule ccontr)
      assume "pos \<noteq> 0"
      then have "hd buffer \<in> set (take pos buffer)" using ne by (cases buffer; cases pos) auto
      with h p show False by simp
    qed
  qed
  have lastc: "(pos + 1 = length buffer) = (last buffer = CHR ''='' \<and> CHR ''='' \<notin> set (butlast buffer))"
  proof
    assume e: "pos + 1 = length buffer"
    then have "pos = length buffer - 1" by simp
    with p ne show "last buffer = CHR ''='' \<and> CHR ''='' \<notin> set (butlast buffer)"
      by (simp add: last_conv_nth butlast_conv_take)
  next
    assume h: "last buffer = CHR ''='' \<and> CHR ''='' \<notin> set (butlast buffer)"
    show "pos + 1 = length buffer"
    proof (rule ccontr)
      assume "pos + 1 \<noteq> length buffer"
      with p have "pos < length buffer - 1" by simp
      then have "buffer ! pos \<in> set (butlast buffer)"
        by (metis length_butlast nth_butlast nth_mem)
      with p h show False by simp
    qed
  qed
  have key_ne: "pos \<noteq> 0 \<Longrightarrow> take pos buffer \<noteq> []"
    using ne by simp
  show ?thesis
    using Some first lastc key_ne mem ne
    by (auto simp add: Try_Extract_Key_Value_View_def no_key_value_def)
qed

lemma parse_arg_skip: "no_key_value arg \<Longrightarrow> parse_arg arg st = Inr st"
  using Try_Extract_empty_key_iff [of arg]
  by (cases "Try_Extract_Key_Value_View arg") (simp add: parse_arg_def)

lemma parse_param_skip: "no_key_value buff \<Longrightarrow> parse_param buff st = Inr st"
  using Try_Extract_empty_key_iff [of buff]
  by (cases "Try_Extract_Key_Value_View buff") (simp add: parse_param_def)

lemma no_key_value_terminated:
  "no_key_value (l @ [CHR 0x0A]) = (CHR ''='' \<notin> set l \<or> (l \<noteq> [] \<and> hd l = CHR ''=''))"
  by (cases l) (auto simp add: no_key_value_def butlast_append)

text \<open>
  C9, as the code has it, for the buffer handed to \<^verbatim>\<open>Try_Extract_Key_Value_View\<close>.
  Key/value extraction yields an empty key exactly for the buffers in which \<^verbatim>\<open>=\<close> is
  absent, is the first character, or (the first \<^verbatim>\<open>=\<close>) is the last character of the buffer.
  A command-line argument of this kind is skipped: the state of the constructor, with the
  map and what has been printed, is unchanged and no error is raised. A buffer of this
  kind read from the file is skipped in the same way when it does not start with \<^verbatim>\<open>[\<close>; a
  buffer that starts with \<^verbatim>\<open>[\<close> is a table heading and takes the other branch. The buffer
  of a line \<open>l\<close> that ends with its newline is \<open>l\<close> followed by the newline, whose last
  character is not \<^verbatim>\<open>=\<close>: it is of this kind exactly when \<^verbatim>\<open>=\<close> is absent from \<open>l\<close> or is
  the first character of \<open>l\<close>.
\<close>

theorem skipped_input:
  "(fst (Try_Extract_Key_Value_View buffer) = []) = no_key_value buffer
   \<and> (no_key_value buffer \<longrightarrow> parse_arg buffer st = Inr st)
   \<and> (no_key_value buffer \<and> \<not> is_heading buffer \<longrightarrow> parse_line buffer st = Inr st)
   \<and> no_key_value (l @ [CHR 0x0A]) = (CHR ''='' \<notin> set l \<or> (l \<noteq> [] \<and> hd l = CHR ''=''))"
  by (simp add: Try_Extract_empty_key_iff parse_arg_skip parse_param_skip parse_line_def is_heading_def
      no_key_value_terminated)

text \<open>
  At concrete buffers: two lines of the file with their newline, one without \<^verbatim>\<open>=\<close> and
  one that starts with it; a last line without newline that ends with \<^verbatim>\<open>=\<close>; and two
  command-line arguments.
\<close>

theorem skipped_input_witness:
  "parse_line (''nonsense'' @ [CHR 0x0A]) initial_state = Inr initial_state
   \<and> parse_line (''=5'' @ [CHR 0x0A]) initial_state = Inr initial_state
   \<and> parse_line ''key='' initial_state = Inr initial_state
   \<and> parse_arg ''key='' initial_state = Inr initial_state
   \<and> parse_arg ''nonsense'' initial_state = Inr initial_state"
proof -
  have k: "no_key_value (''nonsense'' @ [CHR 0x0A])" "no_key_value (''=5'' @ [CHR 0x0A])"
    "no_key_value ''key=''" "no_key_value ''nonsense''"
    by (simp_all add: no_key_value_def)
  have h: "\<not> is_heading (''nonsense'' @ [CHR 0x0A])" "\<not> is_heading (''=5'' @ [CHR 0x0A])"
    "\<not> is_heading ''key=''"
    by (simp_all add: is_heading_def)
  have 1: "parse_line (''nonsense'' @ [CHR 0x0A]) initial_state = Inr initial_state"
    using skipped_input [of "''nonsense'' @ [CHR 0x0A]" initial_state] k(1) h(1) by blast
  have 2: "parse_line (''=5'' @ [CHR 0x0A]) initial_state = Inr initial_state"
    using skipped_input [of "''=5'' @ [CHR 0x0A]" initial_state] k(2) h(2) by blast
  have 3: "parse_line ''key='' initial_state = Inr initial_state"
    using skipped_input [of "''key=''" initial_state] k(3) h(3) by blast
  have 4: "parse_arg ''key='' initial_state = Inr initial_state"
    using skipped_input [of "''key=''" initial_state] k(3) by blast
  have 5: "parse_arg ''nonsense'' initial_state = Inr initial_state"
    using skipped_input [of "''nonsense''" initial_state] k(4) by blast
  from 1 2 3 4 5 show ?thesis by (intro conjI)
qed

text \<open>
  C9 as stated fails for a line of the file that starts with \<^verbatim>\<open>[\<close>: the line
  \<^verbatim>\<open>[x\<close> holds no \<^verbatim>\<open>=\<close>, and the constructor throws ("problem parsing a parameter-table
  header") instead of skipping it.
\<close>

theorem heading_without_equals_raises:
  "no_key_value (''[x'' @ [CHR 0x0A]) \<and> parse_line (''[x'' @ [CHR 0x0A]) initial_state = Inl bad_header"
  by (simp add: no_key_value_def parse_line_def parse_header_def rstrip_def isspace_def)

subsection \<open>Conversion of values\<close>

text \<open>
  C7 at the empty string: \<^verbatim>\<open>strtoll\<close> performs no conversion and leaves \<^verbatim>\<open>ptr_end\<close> at the
  start of the string, which is also its end, so \<^verbatim>\<open>try_int64_\<close> reports no error and
  yields 0 for a string that is not a base-10 integer.
\<close>

theorem try_int64_accepts_empty_string:
  "try_int64 [] = (none, Some 0) \<and> \<not> base10_integer []"
  by (simp add: try_int64_def strtoll_def base10_integer_def)

text \<open>
  The part of C7 that the code satisfies: on a string that is not empty the conversion
  succeeds exactly when the whole string is a base-10 integer in the range of 64 bits.
\<close>

lemma length_takeWhile_eq: "(length (takeWhile P xs) = length xs) = list_all P xs"
  by (induction xs) (auto simp add: le_imp_less_Suc length_takeWhile_le dual_order.strict_implies_not_eq)

lemma takeWhile_all: "list_all P xs \<Longrightarrow> takeWhile P xs = xs"
  by (induction xs) auto

lemma try_int64_nonempty:
  assumes "str \<noteq> []"
  shows "(fst (try_int64 str) = none) =
     (base10_integer str \<and> LLONG_MIN \<le> base10_value str \<and> base10_value str \<le> LLONG_MAX)"
proof -
  define ws where "ws = takeWhile isspace str"
  define r where "r = dropWhile isspace str"
  define sgn :: nat where "sgn = (if r \<noteq> [] \<and> (hd r = CHR ''-'' \<or> hd r = CHR ''+'') then 1 else 0)"
  define t where "t = drop sgn r"
  define ds where "ds = takeWhile isdigit t"
  have len: "length str = length ws + sgn + length t"
  proof -
    have "length str = length ws + length r"
      unfolding ws_def r_def by (metis length_append takeWhile_dropWhile_id)
    moreover have "sgn \<le> length r"
      unfolding sgn_def by (cases r) auto
    ultimately show ?thesis unfolding t_def by simp
  qed
  have t_alt: "t = (if r \<noteq> [] \<and> (hd r = CHR ''-'' \<or> hd r = CHR ''+'') then tl r else r)"
    unfolding t_def sgn_def by (simp add: drop_Suc)
  have b: "base10_integer str = (t \<noteq> [] \<and> list_all isdigit t)"
    unfolding base10_integer_def Let_def t_alt r_def ..
  have full: "(length str = length ws + sgn + length ds) = list_all isdigit t"
    unfolding len ds_def using length_takeWhile_eq [of isdigit t] by auto
  have v: "list_all isdigit t \<Longrightarrow>
      base10_value str = (if r \<noteq> [] \<and> hd r = CHR ''-'' then - digits_val ds else digits_val ds)"
    unfolding base10_value_def Let_def ds_def t_alt r_def [symmetric]
    by (auto simp add: takeWhile_all)
  have dsne: "list_all isdigit t \<Longrightarrow> (ds = []) = (t = [])"
    unfolding ds_def by (simp add: takeWhile_all)
  have t_ne: "t = [] \<Longrightarrow> list_all isdigit t" by simp
  have unfold: "try_int64 str =
     (let v = (if r \<noteq> [] \<and> hd r = CHR ''-'' then - digits_val ds else digits_val ds) in
      if ds = [] then (if length str \<noteq> 0 then (generic, None) else (none, Some 0))
      else if LLONG_MAX < v then (out_of_range, None)
      else if v < LLONG_MIN then (out_of_range, None)
      else if length str \<noteq> length ws + sgn + length ds then (generic, None)
      else (none, Some v))"
    unfolding try_int64_def strtoll_def Let_def ws_def [symmetric] r_def [symmetric]
      sgn_def [symmetric] t_def [symmetric] ds_def [symmetric]
    by simp
  show ?thesis
  proof (cases "list_all isdigit t")
    case True
    show ?thesis
      using assms True v [OF True] dsne [OF True] full
      by (auto simp add: unfold b Let_def)
  next
    case False
    then have "t \<noteq> []" by auto
    show ?thesis
      using assms False full
      by (auto simp add: unfold b Let_def)
  qed
qed

text \<open>The empty string is a value the constructor stores: the line \<^verbatim>\<open>n_steps=\<close>.\<close>

lemma empty_value_is_stored:
  "ParameterMap [''n_steps='' @ [CHR 0x0A]] [] = Inr [(''n_steps'', \<lparr>param_str = [], accessed = False\<rparr>)]"
  by (simp add: ParameterMap_def initial_state_def parse_line_def parse_param_def
      Try_Extract_Key_Value_View_def Process_Full_Name_def isalnum_def isdigit_def my_trim_def
      rstrip_def isspace_def)

lemma try_bool_iff: "(fst (try_bool str) = none) = (str = ''true'' \<or> str = ''false'')"
  by (simp add: try_bool_def)

lemma try_bool_error: "str \<noteq> ''true'' \<Longrightarrow> str \<noteq> ''false'' \<Longrightarrow> try_bool str = (boolean, None)"
  by (simp add: try_bool_def)

subsection \<open>Collisions of names\<close>

text \<open>
  The part of C6 that the code satisfies: a heading named like a stored parameter, and
  a heading that has been read before, end the construction with an error.
\<close>

lemma parse_line_heading: "is_heading buff \<Longrightarrow> parse_line buff st = parse_header buff st"
  by (auto simp add: is_heading_def parse_line_def)

lemma heading_collision_fails:
  assumes "is_heading buff" "map_of (entries st) (heading_of buff) \<noteq> None"
  shows "\<exists>e. parse_line buff st = Inl e"
  using assms
  by (auto simp add: parse_line_heading parse_header_def heading_of_def Let_def)

lemma known_heading_fails:
  assumes "is_heading buff" "heading_of buff \<in> explicit_tables st"
  shows "\<exists>e. parse_line buff st = Inl e"
  using assms
  by (auto simp add: parse_line_heading parse_header_def heading_of_def Let_def)

lemma parse_header_records:
  assumes "parse_header buff st = Inr st'"
  shows "explicit_tables st' = insert (heading_of buff) (explicit_tables st)"
  using assms
  by (auto simp add: parse_header_def heading_of_def Let_def split: if_splits prod.splits option.splits)

lemma parse_param_tables:
  assumes "parse_param buff st = Inr st'"
  shows "explicit_tables st' = explicit_tables st"
  using assms
  by (auto simp add: parse_param_def Let_def split: if_splits prod.splits option.splits)

lemma parse_line_tables_mono:
  assumes "parse_line buff st = Inr st'"
  shows "explicit_tables st \<subseteq> explicit_tables st'"
  using assms parse_header_records [of buff st st'] parse_param_tables [of buff st st']
  by (auto simp add: parse_line_def split: if_splits)

lemma parse_file_tables_mono:
  "parse_file buffs st = Inr st' \<Longrightarrow> explicit_tables st \<subseteq> explicit_tables st'"
proof (induction buffs arbitrary: st)
  case Nil
  then show ?case by simp
next
  case (Cons b bs)
  then obtain st1 where 1: "parse_line b st = Inr st1" and 2: "parse_file bs st1 = Inr st'"
    by (auto split: sum.splits)
  from parse_line_tables_mono [OF 1] Cons.IH [OF 2] show ?case by blast
qed

lemma parse_file_append:
  "parse_file (xs @ ys) st = (case parse_file xs st of Inl e \<Rightarrow> Inl e | Inr st' \<Rightarrow> parse_file ys st')"
  by (induction xs arbitrary: st) (auto split: sum.splits)

lemma parse_file_known_heading:
  assumes "is_heading b" "heading_of b \<in> explicit_tables st"
  shows "\<exists>e. parse_file (ys @ b # zs) st = Inl e"
proof (cases "parse_file ys st")
  case (Inl e)
  then show ?thesis by (simp add: parse_file_append)
next
  case (Inr st1)
  then have "heading_of b \<in> explicit_tables st1"
    using assms(2) parse_file_tables_mono by blast
  then obtain e where "parse_line b st1 = Inl e"
    using known_heading_fails [OF assms(1)] by blast
  then show ?thesis using Inr by (simp add: parse_file_append)
qed

lemma repeated_heading_fails:
  assumes "is_heading b1" "is_heading b2" "heading_of b1 = heading_of b2"
  shows "\<exists>e. parse_file (xs @ b1 # ys @ b2 # zs) st = Inl e"
proof (cases "parse_file xs st")
  case (Inl e)
  then show ?thesis by (simp add: parse_file_append)
next
  case (Inr st1)
  show ?thesis
  proof (cases "parse_line b1 st1")
    case (Inl e)
    then show ?thesis using Inr by (simp add: parse_file_append)
  next
    case st2: (Inr st2)
    then have "parse_header b1 st1 = Inr st2"
      using assms(1) by (simp add: parse_line_heading)
    then have "heading_of b2 \<in> explicit_tables st2"
      using parse_header_records assms(3) by auto
    from parse_file_known_heading [OF assms(2) this, of ys zs]
    show ?thesis using Inr st2 by (simp add: parse_file_append)
  qed
qed

lemma repeated_heading_fails_in_construction:
  assumes "is_heading b1" "is_heading b2" "heading_of b1 = heading_of b2"
  shows "\<exists>e. ParameterMap (xs @ b1 # ys @ b2 # zs) argv = Inl e"
  using repeated_heading_fails [OF assms, of xs ys zs initial_state]
  by (auto simp add: ParameterMap_def)

text \<open>
  In the file a collision of a prefix with a parameter is found: parameters without a
  table come before the first heading there.
\<close>

lemma prefix_collision_in_file_fails:
  "ParameterMap [''a=5'' @ [CHR 0x0A], ''[a.b]'' @ [CHR 0x0A]] [] =
     Inl (header_name_problem ''a.b'' (collides_with_parameter ''a''))"
  by (simp add: ParameterMap_def initial_state_def parse_line_def parse_param_def parse_header_def
      Try_Extract_Key_Value_View_def Process_Full_Name_def isalnum_def isdigit_def my_trim_def
      rstrip_def isspace_def)

text \<open>
  C6 at the arguments \<^verbatim>\<open>a.b=1 a=5 a.c=3\<close>: the first registers the table \<^verbatim>\<open>a\<close>, the
  second stores a parameter named \<^verbatim>\<open>a\<close> (a name without a dot is never compared with the
  tables), and the third, whose table prefix \<^verbatim>\<open>a\<close> is the name of that parameter, is
  stored as well, because \<^verbatim>\<open>Process_Full_Name\<close> returns as soon as it meets a known table.
  The construction succeeds with all three entries.
\<close>

theorem prefix_collision_not_detected:
  "ParameterMap [] [''a.b=1'', ''a=5'', ''a.c=3''] =
     Inr [(''a'', \<lparr>param_str = ''5'', accessed = False\<rparr>),
          (''a.b'', \<lparr>param_str = ''1'', accessed = False\<rparr>),
          (''a.c'', \<lparr>param_str = ''3'', accessed = False\<rparr>)]"
  by (simp add: ParameterMap_def initial_state_def parse_arg_def
      Try_Extract_Key_Value_View_def Process_Full_Name_def isalnum_def isdigit_def my_trim_def
      rstrip_def isspace_def)

subsection \<open>Unused parameters\<close>

lemma warn_loop_eq:
  "warn_loop es ign ab suppress n out =
     (if ab then
        (case filter (unused ign) es of
           [] \<Rightarrow> (Returned n, out)
         | kv # rest \<Rightarrow> (Aborted (unknown_pair_msg (fst kv) (param_str (snd kv))), out))
      else (Returned (n + length (filter (unused ign) es)),
            out @ (if suppress then [] else map warning_line (filter (unused ign) es))))"
  by (induction es arbitrary: n out) (auto simp add: unused_def warning_line_def)

text \<open>
  C8, as the code has it. Without \<^verbatim>\<open>abort_on_warning\<close> the call returns the number of
  entries that were never accessed and are not in the set to ignore, and unless
  \<^verbatim>\<open>suppress_warning_msg\<close> is set it prints one warning for each of them, in the order of
  the map, naming the parameter and its value; nothing is printed for the other
  entries. With \<^verbatim>\<open>abort_on_warning\<close> it ends the program with an error at the first such
  entry, and returns 0 when there is none.
\<close>

theorem warn_unused_parameters_result:
  "warn_unused_parameters es ign ab suppress =
     (if ab then
        (case filter (unused ign) es of
           [] \<Rightarrow> (Returned 0, [])
         | kv # rest \<Rightarrow> (Aborted (unknown_pair_msg (fst kv) (param_str (snd kv))), []))
      else (Returned (length (filter (unused ign) es)),
            if suppress then [] else map warning_line (filter (unused ign) es)))"
  by (simp add: warn_unused_parameters_def warn_loop_eq)

theorem warn_unused_parameters_witness:
  "warn_unused_parameters
     [(''a'', \<lparr>param_str = ''1'', accessed = False\<rparr>), (''b'', \<lparr>param_str = ''2'', accessed = True\<rparr>),
      (''c'', \<lparr>param_str = ''3'', accessed = False\<rparr>), (''d'', \<lparr>param_str = ''4'', accessed = False\<rparr>)]
     {''c''} False False =
   (Returned 2, [''WARNING: a/1:  Unknown parameter/value pair!'' @ [CHR 0x0A],
                 ''WARNING: d/4:  Unknown parameter/value pair!'' @ [CHR 0x0A]])"
  using warn_unused_parameters_result [of
      "[(''a'', \<lparr>param_str = ''1'', accessed = False\<rparr>), (''b'', \<lparr>param_str = ''2'', accessed = True\<rparr>),
        (''c'', \<lparr>param_str = ''3'', accessed = False\<rparr>), (''d'', \<lparr>param_str = ''4'', accessed = False\<rparr>)]"
      "{''c''}" False False]
  by (simp add: unused_def warning_line_def unknown_pair_msg_def)

text \<open>
  C8 as stated fails when \<^verbatim>\<open>suppress_warning_msg\<close> is set: the unused parameter is
  counted and no warning is emitted for it.
\<close>

theorem suppressed_warning_is_not_emitted:
  "warn_unused_parameters [(''a'', \<lparr>param_str = ''1'', accessed = False\<rparr>)] {} False True = (Returned 1, [])"
  by (simp add: warn_unused_parameters_def)

section \<open>Properties of the round-off comparison\<close>

lemma sint_diff_same_sign:
  fixes x y :: "64 word"
  assumes "(x <s 0) = (y <s 0)"
  shows "sint (x - y) = sint x - sint y"
proof -
  have bx: "- (2 ^ 63) \<le> sint x" "sint x < 2 ^ 63"
    using sint_ge [of x] sint_lt [of x] by simp_all
  have by': "- (2 ^ 63) \<le> sint y" "sint y < 2 ^ 63"
    using sint_ge [of y] sint_lt [of y] by simp_all
  from assms have s: "(sint x < 0) = (sint y < 0)"
    by (simp add: word_sless_alt)
  have "- (2 ^ 63) \<le> sint x - sint y \<and> sint x - sint y < 2 ^ 63"
    using bx by' s by (cases "sint x < 0") auto
  then have "signed_take_bit 63 (sint x - sint y) = sint x - sint y"
    by (simp add: signed_take_bit_int_eq_self)
  then show ?thesis
    by (simp add: sint_word_diff)
qed

lemma abs_distance_sym:
  fixes x y :: "64 word"
  assumes "(x <s 0) = (y <s 0)"
  shows "(if x - y <s 0 then - (x - y) else x - y) = (if y - x <s 0 then - (y - x) else y - x)"
proof -
  have xy: "sint (x - y) = sint x - sint y"
    using assms by (rule sint_diff_same_sign)
  have yx: "sint (y - x) = sint y - sint x"
    using assms by (intro sint_diff_same_sign) simp
  consider "sint x < sint y" | "sint y < sint x" | "sint x = sint y"
    by linarith
  then show ?thesis
  proof cases
    case 1
    then show ?thesis by (simp add: word_sless_alt xy yx)
  next
    case 2
    then show ?thesis by (simp add: word_sless_alt xy yx)
  next
    case 3
    then have "x = y" by (rule signed_word_eqI)
    then show ?thesis by simp
  qed
qed

lemma double_eq_sym: "double_eq a b = double_eq b a"
  by (auto simp: double_eq_def)

lemma ulpsDistanceDbl_sym: "ulpsDistanceDbl a b = ulpsDistanceDbl b a"
proof (cases "(a <s 0) = (b <s 0)")
  case True
  then show ?thesis
    using abs_distance_sym [OF True] 
    by (auto simp add: ulpsDistanceDbl_def Let_def double_eq_sym [of b a])
next
  case False
  then show ?thesis
    by (auto simp add: ulpsDistanceDbl_def Let_def double_eq_sym [of b a])
qed


lemma sint_abs_distance:
  fixes x y :: "64 word"
  assumes "(x <s 0) = (y <s 0)"
  shows "sint (if x - y <s 0 then - (x - y) else x - y) = \<bar>sint x - sint y\<bar>"
proof -
  have xy: "sint (x - y) = sint x - sint y"
    using assms by (rule sint_diff_same_sign)
  have yx: "sint (y - x) = sint y - sint x"
    using assms by (intro sint_diff_same_sign) simp
  have m: "- (x - y) = y - x" by simp
  show ?thesis
    unfolding m by (simp add: word_sless_alt xy yx)
qed

text \<open>
  C10, as the code has it. With the default tolerances \<^verbatim>\<open>nearlyEqualDbl\<close> returns true
  exactly when the distance in units in the last place is at most 4 or the absolute
  difference, computed and compared in double precision, is at most \<open>10\<^sup>-\<^sup>1\<^sup>4\<close>. The
  distance is symmetric. Read as a signed integer it is 0 when \<^verbatim>\<open>a == b\<close>, which \<open>+0\<close> and
  \<open>-0\<close> satisfy; otherwise the largest \<^verbatim>\<open>int64_t\<close>, \<open>2\<^sup>6\<^sup>3 - 1\<close>, when an argument is a NaN or
  an infinity or when the signs differ; and otherwise, for two finite doubles of the same
  sign that are not equal, the absolute difference of their bit patterns read as
  \<^verbatim>\<open>int64_t\<close>.
\<close>

theorem ulpsDistanceDbl_properties:
  "fst (nearlyEqualDbl abs_diff le a b fixedEpsilon_default ulpsEpsilon_default) =
     (sint (ulpsDistanceDbl a b) \<le> 4 \<or> le (abs_diff a b) fixedEpsilon_default)
   \<and> ulpsDistanceDbl a b = ulpsDistanceDbl b a
   \<and> sint (ulpsDistanceDbl a b) =
       (if double_eq a b then 0
        else if isnan a \<or> isnan b \<or> isinf a \<or> isinf b \<or> (a <s 0) \<noteq> (b <s 0) then 2 ^ 63 - 1
        else \<bar>sint a - sint b\<bar>)
   \<and> double_eq 0 0x8000000000000000"
proof -
  have 1: "fst (nearlyEqualDbl abs_diff le a b fixedEpsilon_default ulpsEpsilon_default) =
     (sint (ulpsDistanceDbl a b) \<le> 4 \<or> le (abs_diff a b) fixedEpsilon_default)"
    by (simp add: nearlyEqualDbl_def Let_def ulpsEpsilon_default_def)
  have 2: "double_eq 0 0x8000000000000000"
    by (simp add: double_eq_def isnan_def)
  have 3: "sint (ulpsDistanceDbl a b) =
       (if double_eq a b then 0
        else if isnan a \<or> isnan b \<or> isinf a \<or> isinf b \<or> (a <s 0) \<noteq> (b <s 0) then 2 ^ 63 - 1
        else \<bar>sint a - sint b\<bar>)"
  proof (cases "(a <s 0) = (b <s 0)")
    case True
    show ?thesis
      using sint_abs_distance [OF True] True
      by (simp add: ulpsDistanceDbl_def Let_def maxInt_def)
  next
    case False
    then show ?thesis
      by (simp add: ulpsDistanceDbl_def Let_def maxInt_def)
  qed
  show ?thesis
    using 1 2 3 ulpsDistanceDbl_sym [of a b] by blast
qed

text \<open>
  At concrete doubles: 1 and 2 are \<open>2\<^sup>5\<^sup>2\<close> apart, as are \<open>-1\<close> and \<open>-2\<close>; 1 and its fourth
  successor are 4 apart; \<open>-0\<close> and \<open>+0\<close> are 0 apart; an infinity and 1, and 1 and \<open>-1\<close>,
  are at the largest distance. With an absolute test that fails, the distance alone
  decides \<^verbatim>\<open>nearlyEqualDbl\<close>: true at distance 4, false at distance \<open>2\<^sup>5\<^sup>2\<close>.
\<close>

theorem ulpsDistanceDbl_witness:
  "sint (ulpsDistanceDbl 0x3FF0000000000000 0x4000000000000000) = 2 ^ 52
   \<and> sint (ulpsDistanceDbl 0x3FF0000000000004 0x3FF0000000000000) = 4
   \<and> sint (ulpsDistanceDbl 0xBFF0000000000000 0xC000000000000000) = 2 ^ 52
   \<and> sint (ulpsDistanceDbl 0x8000000000000000 0) = 0
   \<and> sint (ulpsDistanceDbl 0x7FF0000000000000 0x3FF0000000000000) = 2 ^ 63 - 1
   \<and> sint (ulpsDistanceDbl 0x3FF0000000000000 0xBFF0000000000000) = 2 ^ 63 - 1
   \<and> fst (nearlyEqualDbl (\<lambda>x y. 0) (\<lambda>x y. False) 0x3FF0000000000004 0x3FF0000000000000
          fixedEpsilon_default ulpsEpsilon_default)
   \<and> \<not> fst (nearlyEqualDbl (\<lambda>x y. 0) (\<lambda>x y. False) 0x3FF0000000000000 0x4000000000000000
          fixedEpsilon_default ulpsEpsilon_default)"
proof -
  note v = ulpsDistanceDbl_properties [of "\<lambda>x y. 0" "\<lambda>x y. False",
      THEN conjunct2, THEN conjunct2, THEN conjunct1]
  note n = ulpsDistanceDbl_properties [of "\<lambda>x y. 0" "\<lambda>x y. False", THEN conjunct1]
  have 1: "sint (ulpsDistanceDbl 0x3FF0000000000000 0x4000000000000000) = 2 ^ 52"
    by (subst v) (simp add: double_eq_def isnan_def isinf_def word_sless_alt)
  have 2: "sint (ulpsDistanceDbl 0x3FF0000000000004 0x3FF0000000000000) = 4"
    by (subst v) (simp add: double_eq_def isnan_def isinf_def word_sless_alt)
  have 3: "sint (ulpsDistanceDbl 0xBFF0000000000000 0xC000000000000000) = 2 ^ 52"
    by (subst v) (simp add: double_eq_def isnan_def isinf_def word_sless_alt)
  have 4: "sint (ulpsDistanceDbl 0x8000000000000000 0) = 0"
    by (subst v) (simp add: double_eq_def isnan_def isinf_def word_sless_alt)
  have 5: "sint (ulpsDistanceDbl 0x7FF0000000000000 0x3FF0000000000000) = 2 ^ 63 - 1"
    by (subst v) (simp add: double_eq_def isnan_def isinf_def word_sless_alt)
  have 6: "sint (ulpsDistanceDbl 0x3FF0000000000000 0xBFF0000000000000) = 2 ^ 63 - 1"
    by (subst v) (simp add: double_eq_def isnan_def isinf_def word_sless_alt)
  have 7: "fst (nearlyEqualDbl (\<lambda>x y. 0) (\<lambda>x y. False) 0x3FF0000000000004 0x3FF0000000000000
          fixedEpsilon_default ulpsEpsilon_default)"
    by (subst n) (simp add: 2)
  have 8: "\<not> fst (nearlyEqualDbl (\<lambda>x y. 0) (\<lambda>x y. False) 0x3FF0000000000000 0x4000000000000000
          fixedEpsilon_default ulpsEpsilon_default)"
    by (subst n) (simp add: 1)
  from 1 2 3 4 5 6 7 8 show ?thesis by (intro conjI)
qed

text \<open>
  C10 as stated fails for two equal infinities: an argument is infinite, and the distance
  is 0, not the largest \<^verbatim>\<open>int64_t\<close>, because \<^verbatim>\<open>a == b\<close> is tested first.
\<close>

theorem equal_infinities_have_distance_zero:
  "isinf 0x7FF0000000000000
   \<and> ulpsDistanceDbl 0x7FF0000000000000 0x7FF0000000000000 = 0
   \<and> ulpsDistanceDbl 0x7FF0000000000000 0x7FF0000000000000 \<noteq> maxInt"
  by (simp add: ulpsDistanceDbl_def double_eq_def isnan_def isinf_def maxInt_def)

section \<open>Properties of the exact Riemann solver\<close>

text \<open>The local variables of \<^verbatim>\<open>Calculate_Exact_Fluxes\<close>, one assignment after the other.\<close>

lemma exact_sampled_eq:
  assumes "a2 / a0 = vxl'" "a3 / a1 = vxr'" "a4 / a0 = vyl'" "a5 / a1 = vyr'"
    "a6 / a0 = vzl'" "a7 / a1 = vzr'" "a10 / a0 = gel'" "a11 / a1 = ger'"
    "max ((a8 - 0.5 * a0 * (vxl' * vxl' + vyl' * vyl' + vzl' * vzl')) * (g - 1)) T = pl'"
    "max ((a9 - 0.5 * a1 * (vxr' * vxr' + vyr' * vyr' + vzr' * vzr')) * (g - 1)) T = pr'"
    "sqrt (g * pl' / a0) = cl'" "sqrt (g * pr' / a1) = cr'"
    "starpu a0 vxl' pl' cl' a1 vxr' pr' cr' g = star"
    "sample (star_p star) (star_u star) a0 vxl' pl' cl' a1 vxr' pr' cr' g = (d, u, p)"
  shows "exact_sampled T [a0, a1, a2, a3, a4, a5, a6, a7, a8, a9, a10, a11] g =
     \<lparr>dl = a0, vxl = vxl', vyl = vyl', vzl = vzl', pl = pl', cl = cl', gel = gel',
      dr = a1, vxr = vxr', vyr = vyr', vzr = vzr', pr = pr', cr = cr', ger = ger',
      pm = star_p star, um = star_u star, newton_iterations = iterations star,
      ds = d, us = u, ps = p\<rparr>"
proof -
  let ?cW = "[a0, a1, a2, a3, a4, a5, a6, a7, a8, a9, a10, a11]"
  have n: "?cW ! 0 = a0" "?cW ! 1 = a1" "?cW ! 2 = a2" "?cW ! 3 = a3" "?cW ! 4 = a4" "?cW ! 5 = a5"
    "?cW ! 6 = a6" "?cW ! 7 = a7" "?cW ! 8 = a8" "?cW ! 9 = a9" "?cW ! 10 = a10" "?cW ! 11 = a11"
    by simp_all
  show ?thesis
    unfolding exact_sampled_def Let_def n assms prod.case by (rule refl)
qed

subsection \<open>The floor on the derived pressures\<close>

text \<open>
  The part of C1 about the two derived pressures: whatever the input, neither is below
  \<^verbatim>\<open>TINY_NUMBER\<close> once \<^verbatim>\<open>fmax\<close> has been applied.
\<close>

lemma derived_pressures_floored:
  "T \<le> pl (exact_sampled T cW g) \<and> T \<le> pr (exact_sampled T cW g)"
  by (simp add: exact_sampled_def Let_def split: prod.splits)

subsection \<open>Identical states\<close>

lemma c_pow_one [simp]: "c_pow 1 y = 1"
  by (simp add: c_pow_def)

lemma guessp_same:
  assumes "0 < rho" "0 < q" "1 < g"
  shows "guessp rho u q c rho u q c g = q"
proof -
  let ?a = "(2 / ((g + 1) * rho)) / (((g - 1) / (g + 1)) * q + q)"
  have "0 < ((g - 1) / (g + 1)) * q + q"
    using assms by (simp add: add_pos_pos)
  moreover have "0 < 2 / ((g + 1) * rho)"
    using assms by simp
  ultimately have "0 < ?a"
    by (rule divide_pos_pos [rotated])
  then have s: "0 < sqrt ?a"
    by simp
  have "(sqrt ?a * q + sqrt ?a * q - (u - u)) / (sqrt ?a + sqrt ?a) = q"
    using s by (simp add: field_simps)
  then show ?thesis
    using assms by (simp add: guessp_def Let_def)
qed

lemma prefun_at_pk: "0 < q \<Longrightarrow> prefun q rho q c g = (0, 1 / (rho * c))"
  by (simp add: prefun_def)

lemma starpu_same:
  assumes "0 < rho" "0 < q" "1 < g"
  shows "starpu rho u q c rho u q c g = \<lparr>star_p = q, star_u = u, final_i = 0, iterations = 1\<rparr>"
  using assms
  by (simp add: starpu_def starpu_loop.simps guessp_same prefun_at_pk TOL_def)

lemma sample_same: "0 < q \<Longrightarrow> sample q u rho u q c rho u q c g = (rho, u, q)"
  by (simp add: sample_def)


lemma exact_sampled_same:
  assumes "0 < rho" "1 < g" "0 < max p T"
  shows "exact_sampled T (cW_of g (rho, u, v, w, p, e) (rho, u, v, w, p, e)) g =
     \<lparr>dl = rho, vxl = u, vyl = v, vzl = w, pl = max p T, cl = sqrt (g * max p T / rho), gel = e,
      dr = rho, vxr = u, vyr = v, vzr = w, pr = max p T, cr = sqrt (g * max p T / rho), ger = e,
      pm = max p T, um = u, newton_iterations = 1, ds = rho, us = u, ps = max p T\<rparr>"
proof -
  have e: "(total_energy g rho u v w p - 0.5 * rho * (u * u + v * v + w * w)) * (g - 1) = p"
    using assms by (simp add: total_energy_def)
  show ?thesis
    using assms e
    by (simp add: exact_sampled_def cW_of_def Let_def starpu_same sample_same)
qed

text \<open>
  C2, as the code has it. For a state of positive density, with adiabatic index above 1
  and a pressure that is positive and not below \<^verbatim>\<open>TINY_NUMBER\<close>, the solver called with
  this state on both sides finds the star region \<open>p\<^sup>* = p\<close>, \<open>u\<^sup>* = u\<close> and returns the
  analytic flux \<open>(\<rho>u, \<rho>u\<^sup>2 + p, \<rho>uv\<^sub>y, \<rho>uv\<^sub>z, (E + p)u)\<close>, with the flux \<open>\<rho>u\<cdot>ge\<close> of the
  dual energy. (In exact arithmetic; the source computes it in floating point, up to
  round-off.)
\<close>

theorem identical_states_analytic_flux:
  assumes "0 < rho" "1 < g" "0 < p" "T \<le> p"
  shows "pm (exact_sampled T (cW_of g (rho, u, v, w, p, e) (rho, u, v, w, p, e)) g) = p
    \<and> um (exact_sampled T (cW_of g (rho, u, v, w, p, e) (rho, u, v, w, p, e)) g) = u
    \<and> Calculate_Exact_Fluxes T (cW_of g (rho, u, v, w, p, e) (rho, u, v, w, p, e)) g =
        [rho * u, rho * u * u + p, rho * u * v, rho * u * w,
         (total_energy g rho u v w p + p) * u, rho * u * e]"
proof -
  have m: "max p T = p" using assms by simp
  then have "0 < max p T" using assms by simp
  note s = exact_sampled_same [OF assms(1,2) this, of u v w e, unfolded m]
  show ?thesis
    by (simp add: Calculate_Exact_Fluxes_def s total_energy_def Let_def)
qed

theorem identical_states_analytic_flux_witness:
  "Calculate_Exact_Fluxes (1 / 10 ^ 20) (cW_of 2 (1, 3, 0, 0, 1, 5) (1, 3, 0, 0, 1, 5)) 2 =
     [3, 10, 0, 0, 39/2, 15]"
proof -
  have "(0::real) < 1" "(1::real) < 2" "(1 / 10 ^ 20 :: real) \<le> 1" by simp_all
  from identical_states_analytic_flux [OF this(1) this(2) this(1) this(3), of 3 0 0 5]
  show ?thesis by (simp add: total_energy_def)
qed

text \<open>
  C2 as stated fails for a positive pressure below the floor: with \<^verbatim>\<open>TINY_NUMBER\<close> at
  \<open>10\<^sup>-\<^sup>2\<^sup>0\<close>, the state \<open>\<rho> = 1\<close>, \<open>v = 0\<close>, \<open>p = 10\<^sup>-\<^sup>2\<^sup>1\<close> on both sides gives the star
  pressure and the momentum flux \<open>10\<^sup>-\<^sup>2\<^sup>0\<close>, not \<open>p\<close>.
\<close>

theorem floored_pressure_is_not_analytic:
  "pm (exact_sampled (1 / 10 ^ 20) (cW_of 2 (1, 0, 0, 0, 1 / 10 ^ 21, 0) (1, 0, 0, 0, 1 / 10 ^ 21, 0)) 2)
     = 1 / 10 ^ 20
   \<and> Calculate_Exact_Fluxes (1 / 10 ^ 20) (cW_of 2 (1, 0, 0, 0, 1 / 10 ^ 21, 0) (1, 0, 0, 0, 1 / 10 ^ 21, 0)) 2
     = [0, 1 / 10 ^ 20, 0, 0, 0, 0]"
proof -
  have m: "max (1 / 10 ^ 21) (1 / 10 ^ 20 :: real) = 1 / 10 ^ 20" by simp
  have "0 < max (1 / 10 ^ 21) (1 / 10 ^ 20 :: real)" by simp
  from exact_sampled_same [OF _ _ this, of 1 2 0 0 0 0, unfolded m]
  show ?thesis
    by (simp add: Calculate_Exact_Fluxes_def Let_def)
qed

subsection \<open>Upwinding\<close>

text \<open>
  The flux of the dual energy and the two tangential momentum fluxes are the density
  flux \<open>ds\<cdot>us\<close> times the value of the left cell if the velocity \<open>us\<close> sampled at the
  interface is not negative, and times the value of the right cell otherwise.
\<close>

lemma exact_fluxes_upwinded:
  "Calculate_Exact_Fluxes T cW g ! 0 = ds (exact_sampled T cW g) * us (exact_sampled T cW g)
   \<and> Calculate_Exact_Fluxes T cW g ! 5 =
       (if us (exact_sampled T cW g) \<ge> 0
        then ds (exact_sampled T cW g) * us (exact_sampled T cW g) * gel (exact_sampled T cW g)
        else ds (exact_sampled T cW g) * us (exact_sampled T cW g) * ger (exact_sampled T cW g))
   \<and> Calculate_Exact_Fluxes T cW g ! 5 =
       Calculate_Exact_Fluxes T cW g ! 0 *
         (if us (exact_sampled T cW g) \<ge> 0 then cW ! 10 / cW ! 0 else cW ! 11 / cW ! 1)
   \<and> Calculate_Exact_Fluxes T cW g ! 2 =
       Calculate_Exact_Fluxes T cW g ! 0 *
         (if us (exact_sampled T cW g) \<ge> 0 then cW ! 4 / cW ! 0 else cW ! 5 / cW ! 1)
   \<and> Calculate_Exact_Fluxes T cW g ! 3 =
       Calculate_Exact_Fluxes T cW g ! 0 *
         (if us (exact_sampled T cW g) \<ge> 0 then cW ! 6 / cW ! 0 else cW ! 7 / cW ! 1)"
proof -
  have "gel (exact_sampled T cW g) = cW ! 10 / cW ! 0" "ger (exact_sampled T cW g) = cW ! 11 / cW ! 1"
    "vyl (exact_sampled T cW g) = cW ! 4 / cW ! 0" "vyr (exact_sampled T cW g) = cW ! 5 / cW ! 1"
    "vzl (exact_sampled T cW g) = cW ! 6 / cW ! 0" "vzr (exact_sampled T cW g) = cW ! 7 / cW ! 1"
    by (simp_all add: exact_sampled_def Let_def split: prod.splits)
  then show ?thesis
    by (simp add: Calculate_Exact_Fluxes_def Let_def)
qed

text \<open>
  The sampled velocity has the sign of the velocity \<open>vm\<close> of the star region, which is
  the speed of the contact wave, when the sound speeds and the pressures of the two
  sides are positive and the sound speed \<open>c\<close> inside either fan is not negative.
\<close>

lemma sample_velocity_sign:
  assumes "0 < c1" "0 < c2" "1 < g" "0 < p1" "0 < p2"
    and fanL: "0 \<le> c1 + ((g - 1) / 2) * u1"
    and fanR: "0 < c2 - ((g - 1) / 2) * u2"
  shows "(0 \<le> fst (snd (sample pm' vm d1 u1 p1 c1 d2 u2 p2 c2 g))) = (0 \<le> vm)"
proof -
  let ?u = "fst (snd (sample pm' vm d1 u1 p1 c1 d2 u2 p2 c2 g))"
  let ?sl = "u1 - c1 * sqrt (((g + 1) / (2 * g)) * (pm' / p1) + ((g - 1) / (2 * g)))"
  let ?sr = "u2 + c2 * sqrt (((g + 1) / (2 * g)) * (pm' / p2) + ((g - 1) / (2 * g)))"
  let ?cml = "c1 * c_pow (pm' / p1) ((g - 1) / (2 * g))"
  let ?cmr = "c2 * c_pow (pm' / p2) ((g - 1) / (2 * g))"
  have k: "0 < (g + 1) / (2 * g)" "0 < (g - 1) / (2 * g)" "0 < 2 / (g + 1)"
    using assms(3) by simp_all
  show ?thesis
  proof (cases "vm \<ge> 0")
    case left: True
    have "0 \<le> ?u"
    proof (cases "pm' \<le> p1")
      case r: True
      show ?thesis
      proof (cases "u1 - c1 \<ge> 0")
        case d: True
        have "?u = u1"
          unfolding sample_def Let_def by (simp only: left r d if_True fst_conv snd_conv)
        with d assms(1) show ?thesis by linarith
      next
        case d: False
        show ?thesis
        proof (cases "vm - ?cml < 0")
          case t: True
          have "?u = vm"
            unfolding sample_def Let_def by (simp only: left r d t if_True if_False fst_conv snd_conv)
          with left show ?thesis by simp
        next
          case t: False
          have "?u = (2 / (g + 1)) * (c1 + ((g - 1) / 2) * u1)"
            unfolding sample_def Let_def by (simp only: left r d t if_True if_False fst_conv snd_conv)
          moreover have "0 \<le> (2 / (g + 1)) * (c1 + ((g - 1) / 2) * u1)"
            using k(3) fanL by (intro mult_nonneg_nonneg) simp_all
          ultimately show ?thesis by (simp only:)
        qed
      qed
    next
      case s: False
      show ?thesis
      proof (cases "?sl \<ge> 0")
        case d: True
        have "?u = u1"
          unfolding sample_def Let_def by (simp only: left s d if_True if_False fst_conv snd_conv)
        moreover have "0 < pm' / p1" using s assms(4) by simp
        then have "0 < ((g + 1) / (2 * g)) * (pm' / p1) + ((g - 1) / (2 * g))"
          using k by (intro add_pos_pos mult_pos_pos)
        then have "0 < c1 * sqrt (((g + 1) / (2 * g)) * (pm' / p1) + ((g - 1) / (2 * g)))"
          using assms(1) by simp
        ultimately show ?thesis using d by linarith
      next
        case d: False
        have "?u = vm"
          unfolding sample_def Let_def by (simp only: left s d if_True if_False fst_conv snd_conv)
        with left show ?thesis by simp
      qed
    qed
    with left show ?thesis by simp
  next
    case right: False
    have "?u < 0"
    proof (cases "pm' > p2")
      case s: True
      show ?thesis
      proof (cases "?sr \<le> 0")
        case d: True
        have "?u = u2"
          unfolding sample_def Let_def by (simp only: right s d if_True if_False fst_conv snd_conv)
        moreover have "0 < pm' / p2" using s assms(5) by simp
        then have "0 < ((g + 1) / (2 * g)) * (pm' / p2) + ((g - 1) / (2 * g))"
          using k by (intro add_pos_pos mult_pos_pos)
        then have "0 < c2 * sqrt (((g + 1) / (2 * g)) * (pm' / p2) + ((g - 1) / (2 * g)))"
          using assms(2) by simp
        ultimately show ?thesis using d by linarith
      next
        case d: False
        have "?u = vm"
          unfolding sample_def Let_def by (simp only: right s d if_True if_False fst_conv snd_conv)
        with right show ?thesis by simp
      qed
    next
      case r: False
      show ?thesis
      proof (cases "u2 + c2 \<le> 0")
        case d: True
        have "?u = u2"
          unfolding sample_def Let_def by (simp only: right r d if_True if_False fst_conv snd_conv)
        with d assms(2) show ?thesis by linarith
      next
        case d: False
        show ?thesis
        proof (cases "vm + ?cmr \<ge> 0")
          case t: True
          have "?u = vm"
            unfolding sample_def Let_def by (simp only: right r d t if_True if_False fst_conv snd_conv)
          with right show ?thesis by simp
        next
          case t: False
          have "?u = (2 / (g + 1)) * (- c2 + ((g - 1) / 2) * u2)"
            unfolding sample_def Let_def by (simp only: right r d t if_True if_False fst_conv snd_conv)
          moreover have "- c2 + ((g - 1) / 2) * u2 < 0" using fanR by linarith
          then have "(2 / (g + 1)) * (- c2 + ((g - 1) / 2) * u2) < 0"
            using k(3) by (rule mult_pos_neg [rotated])
          ultimately show ?thesis by (simp only:)
        qed
      qed
    qed
    with right show ?thesis by simp
  qed
qed


lemma exact_sampled_velocity:
  "us (exact_sampled T cW g) =
     fst (snd (sample (pm (exact_sampled T cW g)) (um (exact_sampled T cW g))
       (dl (exact_sampled T cW g)) (vxl (exact_sampled T cW g)) (pl (exact_sampled T cW g))
       (cl (exact_sampled T cW g)) (dr (exact_sampled T cW g)) (vxr (exact_sampled T cW g))
       (pr (exact_sampled T cW g)) (cr (exact_sampled T cW g)) g))"
  unfolding exact_sampled_def Let_def
  by (simp only: exact_locals.simps split: prod.splits) simp

text \<open>
  Under these conditions the three fluxes are upwinded with the contact wave, which is
  the part of C4 that the code satisfies.
\<close>

lemma upwinded_with_contact_wave:
  assumes "1 < g"
    and "0 < cl (exact_sampled T cW g)" "0 < cr (exact_sampled T cW g)"
    and "0 < pl (exact_sampled T cW g)" "0 < pr (exact_sampled T cW g)"
    and "0 \<le> cl (exact_sampled T cW g) + ((g - 1) / 2) * vxl (exact_sampled T cW g)"
    and "0 < cr (exact_sampled T cW g) - ((g - 1) / 2) * vxr (exact_sampled T cW g)"
  shows "Calculate_Exact_Fluxes T cW g ! 5 =
       Calculate_Exact_Fluxes T cW g ! 0 *
         (if um (exact_sampled T cW g) \<ge> 0 then cW ! 10 / cW ! 0 else cW ! 11 / cW ! 1)
   \<and> Calculate_Exact_Fluxes T cW g ! 2 =
       Calculate_Exact_Fluxes T cW g ! 0 *
         (if um (exact_sampled T cW g) \<ge> 0 then cW ! 4 / cW ! 0 else cW ! 5 / cW ! 1)
   \<and> Calculate_Exact_Fluxes T cW g ! 3 =
       Calculate_Exact_Fluxes T cW g ! 0 *
         (if um (exact_sampled T cW g) \<ge> 0 then cW ! 6 / cW ! 0 else cW ! 7 / cW ! 1)"
proof -
  have eq: "(0 \<le> us (exact_sampled T cW g)) = (0 \<le> um (exact_sampled T cW g))"
    unfolding exact_sampled_velocity [of T cW g]
    using assms(2,3,1,4,5,6,7) by (rule sample_velocity_sign)
  note f = exact_fluxes_upwinded [of T cW g, unfolded eq]
  show ?thesis
    by (rule f [THEN conjunct2, THEN conjunct2])
qed

text \<open>
  Two states that differ only in the tangential velocity and the internal energy: the
  contact wave moves with the common normal velocity, and the fluxes take the values of
  the left cell for a positive and of the right cell for a negative velocity.
\<close>

lemma exact_sampled_same_normal:
  assumes "0 < rho" "1 < g" "0 < max p T"
  shows "exact_sampled T (cW_of g (rho, u, v, w, p, e) (rho, u, v', w', p, e')) g =
     \<lparr>dl = rho, vxl = u, vyl = v, vzl = w, pl = max p T, cl = sqrt (g * max p T / rho), gel = e,
      dr = rho, vxr = u, vyr = v', vzr = w', pr = max p T, cr = sqrt (g * max p T / rho), ger = e',
      pm = max p T, um = u, newton_iterations = 1, ds = rho, us = u, ps = max p T\<rparr>"
proof -
  have e: "(total_energy g rho u v w p - 0.5 * rho * (u * u + v * v + w * w)) * (g - 1) = p"
    "(total_energy g rho u v' w' p - 0.5 * rho * (u * u + v' * v' + w' * w')) * (g - 1) = p"
    using assms by (simp_all add: total_energy_def)
  show ?thesis
    using assms e
    by (simp add: exact_sampled_def cW_of_def Let_def starpu_same sample_same)
qed

lemma upwind_side_example:
  "Calculate_Exact_Fluxes (1 / 10 ^ 20) (cW_of 2 (1, 3, 1, 0, 1, 5) (1, 3, 2, 0, 1, 7)) 2 ! 5 = 15
   \<and> Calculate_Exact_Fluxes (1 / 10 ^ 20) (cW_of 2 (1, - 3, 1, 0, 1, 5) (1, - 3, 2, 0, 1, 7)) 2 ! 5 = - 21
   \<and> Calculate_Exact_Fluxes (1 / 10 ^ 20) (cW_of 2 (1, 3, 1, 0, 1, 5) (1, 3, 2, 0, 1, 7)) 2 ! 2 = 3
   \<and> Calculate_Exact_Fluxes (1 / 10 ^ 20) (cW_of 2 (1, - 3, 1, 0, 1, 5) (1, - 3, 2, 0, 1, 7)) 2 ! 2 = - 6"
proof -
  have m: "(0::real) < 1" "(1::real) < 2" "0 < max 1 (1 / 10 ^ 20 :: real)"
    by simp_all
  show ?thesis
    unfolding Calculate_Exact_Fluxes_def exact_sampled_same_normal [OF m] by (simp add: Let_def)
qed

subsection \<open>The initial guess\<close>

text \<open>The guess is never negative, whatever the states.\<close>

lemma guessp_not_negative: "0 \<le> guessp d1 u1 p1 c1 d2 u2 p2 c2 g"
  by (simp add: guessp_def Let_def TOL_def)

text \<open>
  C5 at the states \<open>(\<rho>, v, p) = (1, -1, 1)\<close> and \<open>(1, 1, 1)\<close> with \<open>\<gamma> = 3\<close> (sound speed
  \<open>\<surd>3\<close>): the PVRS pressure is negative and replaced by 0, the two-shock pressure built on
  it is exactly 0, the test \<^verbatim>\<open>p_0 < 0.0\<close> does not hold, and the guess returned is 0, which
  is not positive.
\<close>

theorem guessp_zero:
  "guessp 1 (- 1) 1 (sqrt 3) 1 1 1 (sqrt 3) 3 = 0"
proof -
  have "(1::real) < sqrt 3" by simp
  then have "1 + 0.125 * (- 1 - 1) * (1 + 1) * (sqrt 3 + sqrt 3) < (0::real)" by simp
  then show ?thesis
    by (simp add: guessp_def Let_def)
qed

subsection \<open>The Newton iteration\<close>

text \<open>
  The body of the loop runs at least once and at most \<open>nriter + 1 = 21\<close> times, and a
  first pass that meets the tolerance ends the loop with the new pressure.
\<close>

lemma starpu_loop_iterations:
  "i \<le> nriter \<Longrightarrow> i < iterations (starpu_loop i pold d1 u1 p1 c1 d2 u2 p2 c2 g)
     \<and> iterations (starpu_loop i pold d1 u1 p1 c1 d2 u2 p2 c2 g) \<le> nriter + 1"
proof (induction "nriter - i" arbitrary: i pold)
  case 0
  then have i: "i = nriter" by simp
  show ?case
    unfolding i by (subst (1 2) starpu_loop.simps) (simp add: Let_def split: prod.splits)
next
  case (Suc k)
  then have k: "k = nriter - (i + 1)" "i + 1 \<le> nriter" by simp_all
  obtain fl fld where l: "prefun pold d1 p1 c1 g = (fl, fld)" by (cases "prefun pold d1 p1 c1 g")
  obtain fr frd where r: "prefun pold d2 p2 c2 g = (fr, frd)" by (cases "prefun pold d2 p2 c2 g")
  define p where "p = pold - (fl + fr + u2 - u1) / (fld + frd)"
  define p' where "p' = (if p < 0 then TOL else p)"
  have step: "starpu_loop i pold d1 u1 p1 c1 d2 u2 p2 c2 g =
     (if 2 * \<bar>(p - pold) / (p + pold)\<bar> \<le> TOL
      then \<lparr>star_p = p, star_u = 0.5 * (u1 + u2 + fr - fl), final_i = i, iterations = i + 1\<rparr>
      else starpu_loop (i + 1) p' d1 u1 p1 c1 d2 u2 p2 c2 g)"
    unfolding p_def p'_def
    by (subst starpu_loop.simps, simp only: l r Let_def prod.case k(2) if_True)
  show ?case
    using Suc.hyps(1) [OF k, of p'] by (simp add: step)
qed

lemma starpu_iterations_le: "iterations (starpu d1 u1 p1 c1 d2 u2 p2 c2 g) \<le> 21"
  using starpu_loop_iterations [of 0 "guessp d1 u1 p1 c1 d2 u2 p2 c2 g" d1 u1 p1 c1 d2 u2 p2 c2 g]
  by (simp add: starpu_def nriter_def)

lemma starpu_first_pass:
  assumes "prefun (guessp d1 u1 p1 c1 d2 u2 p2 c2 g) d1 p1 c1 g = (fl, fld)"
    "prefun (guessp d1 u1 p1 c1 d2 u2 p2 c2 g) d2 p2 c2 g = (fr, frd)"
    "p = guessp d1 u1 p1 c1 d2 u2 p2 c2 g - (fl + fr + u2 - u1) / (fld + frd)"
    "2 * \<bar>(p - guessp d1 u1 p1 c1 d2 u2 p2 c2 g) / (p + guessp d1 u1 p1 c1 d2 u2 p2 c2 g)\<bar> \<le> TOL"
  shows "starpu d1 u1 p1 c1 d2 u2 p2 c2 g =
     \<lparr>star_p = p, star_u = 0.5 * (u1 + u2 + fr - fl), final_i = 0, iterations = 1\<rparr>"
  unfolding assms(3) starpu_def
  by (subst starpu_loop.simps,
      simp only: assms(1,2) Let_def prod.case assms(4) [unfolded assms(3)] if_True add_0)

subsection \<open>A vacuum between the states\<close>

lemma powr_third: "(1 / 10 ^ 6 :: real) powr (1 / 3) = 1 / 100"
proof -
  have "(1 / 100 :: real) powr 3 = 1 / 10 ^ 6" by (simp add: power3_eq_cube)
  then have "(1 / 10 ^ 6 :: real) powr (1 / 3) = ((1 / 100) powr 3) powr (1 / 3)" by (simp only:)
  also have "\<dots> = 1 / 100" by (simp only: powr_powr) simp
  finally show ?thesis .
qed

lemma powr_minus_two_thirds: "(1 / 10 ^ 6 :: real) powr (- (2 / 3)) = 10 ^ 4"
proof -
  have "(1 / 100 :: real) powr 3 = 1 / 10 ^ 6" by (simp add: power3_eq_cube)
  then have "(1 / 10 ^ 6 :: real) powr (- (2 / 3)) = ((1 / 100) powr 3) powr (- (2 / 3))" by (simp only:)
  also have "\<dots> = (1 / 100) powr (- 2)" by (simp only: powr_powr) simp
  also have "\<dots> = 10 ^ 4" by (simp add: powr_minus power2_eq_square)
  finally show ?thesis .
qed

lemma prefun_TOL: "prefun TOL 3 1 1 3 = (- (99 / 100), 10000 / 3)"
  using powr_third powr_minus_two_thirds
  by (simp add: prefun_def TOL_def c_pow_def)

lemma guessp_vacuum:
  assumes "2 \<le> V"
  shows "guessp 3 (- 2) 1 1 3 V 1 1 3 = TOL"
proof -
  let ?s = "sqrt (1 / 3 :: real)"
  have s: "0 < ?s" "?s < 1" by simp_all
  have ppv: "0.5 * (1 + 1) + 0.125 * (- 2 - V) * (3 + 3) * (1 + 1) < (0::real)"
    using assms by (simp add: field_simps)
  have g: "(2 / ((3 + 1) * 3)) / (((3 - 1) / (3 + 1)) * 1 + 0) = (1 / 3 :: real)" by simp
  have "?s * 1 + ?s * 1 - (V - (- 2)) < 0" using s assms by linarith
  moreover have "0 < ?s + ?s" using s by simp
  ultimately have "(?s * 1 + ?s * 1 - (V - (- 2))) / (?s + ?s) < 0"
    by (rule divide_neg_pos)
  then show ?thesis
    unfolding guessp_def Let_def using ppv g by simp
qed

lemma starpu_loop_vacuum:
  assumes "V = 2 \<or> V = 10" "i \<le> 20"
  shows "starpu_loop i TOL 3 (- 2) 1 1 3 V 1 1 3 =
     \<lparr>star_p = TOL, star_u = 0.5 * (- 2 + V + (- (99 / 100)) - (- (99 / 100))), final_i = 21,
      iterations = 21\<rparr>"
  using assms(2)
proof (induction "20 - i" arbitrary: i)
  case 0
  then have i: "i = 20" by simp
  show ?case
    using assms(1) unfolding i
    by (subst starpu_loop.simps, simp only: prefun_TOL) (auto simp add: TOL_def nriter_def Let_def)
next
  case (Suc k)
  then have i: "i < 20" and k: "k = 20 - (i + 1)" "i + 1 \<le> 20" by simp_all
  have "starpu_loop i TOL 3 (- 2) 1 1 3 V 1 1 3 = starpu_loop (i + 1) TOL 3 (- 2) 1 1 3 V 1 1 3"
    using assms(1) i
    by (subst starpu_loop.simps, simp only: prefun_TOL) (auto simp add: TOL_def nriter_def Let_def)
  then show ?case
    using Suc.hyps(1) [OF k] by simp
qed

lemma starpu_vacuum:
  assumes "V = 2 \<or> V = 10"
  shows "starpu 3 (- 2) 1 1 3 V 1 1 3 =
     \<lparr>star_p = TOL, star_u = 0.5 * (- 2 + V + (- (99 / 100)) - (- (99 / 100))), final_i = 21,
      iterations = 21\<rparr>"
proof -
  have "2 \<le> V" using assms by auto
  then show ?thesis
    using starpu_loop_vacuum [OF assms, of 0]
    by (simp add: starpu_def guessp_vacuum)
qed

text \<open>
  C3 at the states \<open>(\<rho>, v, p) = (3, -2, 1)\<close> and \<open>(3, 2, 1)\<close> with \<open>\<gamma> = 3\<close>: the two
  rarefactions leave a vacuum, every Newton step gives a negative pressure that is reset
  to \<open>10\<^sup>-\<^sup>6\<close>, and the body of the loop runs for \<open>i = 0, \<dots>, 20\<close>: 21 times, with
  \<^verbatim>\<open>nriter\<close> being 20.
\<close>

theorem newton_runs_21_times:
  "iterations (starpu 3 (- 2) 1 1 3 2 1 1 3) = 21 \<and> nriter = 20
   \<and> newton_iterations (exact_sampled (1 / 10 ^ 20) [3, 3, - 6, 6, 0, 0, 0, 0, 13 / 2, 13 / 2, 0, 0] 3) = 21"
proof -
  let ?star = "starpu 3 (- 2) 1 1 3 2 1 1 3"
  have s: "?star =
     \<lparr>star_p = TOL, star_u = 0.5 * (- 2 + 2 + (- (99 / 100)) - (- (99 / 100))), final_i = 21,
      iterations = 21\<rparr>"
    by (rule starpu_vacuum) simp
  obtain d u p where sm: "sample (star_p ?star) (star_u ?star) 3 (- 2) 1 1 3 2 1 1 3 = (d, u, p)"
    using prod_cases3 by blast
  have "exact_sampled (1 / 10 ^ 20) [3, 3, - 6, 6, 0, 0, 0, 0, 13 / 2, 13 / 2, 0, 0] 3 =
     \<lparr>dl = 3, vxl = - 2, vyl = 0, vzl = 0, pl = 1, cl = 1, gel = 0,
      dr = 3, vxr = 2, vyr = 0, vzr = 0, pr = 1, cr = 1, ger = 0,
      pm = star_p ?star, um = star_u ?star, newton_iterations = iterations ?star,
      ds = d, us = u, ps = p\<rparr>"
    by (rule exact_sampled_eq [OF _ _ _ _ _ _ _ _ _ _ _ _ refl sm]) simp_all
  then show ?thesis
    by (simp add: s nriter_def)
qed

lemma sample_left_fan: "sample TOL 4 3 (- 2) 1 1 3 10 1 1 3 = (- (3 / 2), - (1 / 2), - (1 / 8))"
  using powr_third
  by (simp add: sample_def TOL_def c_pow_def Let_def power_int_def power3_eq_cube)

text \<open>
  C1 at the states \<open>(\<rho>, v, p) = (3, -2, 1)\<close> and \<open>(3, 10, 1)\<close> with \<open>\<gamma> = 3\<close>, given as the
  conserved array: both pressures are positive and above the floor, the Newton iteration
  ends on \<open>10\<^sup>-\<^sup>6\<close> with star velocity 4, the interface is sampled inside the left fan,
  and the sampled density and pressure are \<open>-3/2\<close> and \<open>-1/8\<close>.
\<close>

theorem negative_density_and_pressure_sampled:
  "pl (exact_sampled (1 / 10 ^ 20) [3, 3, - 6, 30, 0, 0, 0, 0, 13 / 2, 301 / 2, 0, 0] 3) = 1
   \<and> pr (exact_sampled (1 / 10 ^ 20) [3, 3, - 6, 30, 0, 0, 0, 0, 13 / 2, 301 / 2, 0, 0] 3) = 1
   \<and> ds (exact_sampled (1 / 10 ^ 20) [3, 3, - 6, 30, 0, 0, 0, 0, 13 / 2, 301 / 2, 0, 0] 3) = - (3 / 2)
   \<and> ps (exact_sampled (1 / 10 ^ 20) [3, 3, - 6, 30, 0, 0, 0, 0, 13 / 2, 301 / 2, 0, 0] 3) = - (1 / 8)"
proof -
  let ?star = "starpu 3 (- 2) 1 1 3 10 1 1 3"
  have s: "?star =
     \<lparr>star_p = TOL, star_u = 0.5 * (- 2 + 10 + (- (99 / 100)) - (- (99 / 100))), final_i = 21,
      iterations = 21\<rparr>"
    by (rule starpu_vacuum) simp
  have sm: "sample (star_p ?star) (star_u ?star) 3 (- 2) 1 1 3 10 1 1 3 = (- (3 / 2), - (1 / 2), - (1 / 8))"
    by (simp add: s sample_left_fan)
  have "exact_sampled (1 / 10 ^ 20) [3, 3, - 6, 30, 0, 0, 0, 0, 13 / 2, 301 / 2, 0, 0] 3 =
     \<lparr>dl = 3, vxl = - 2, vyl = 0, vzl = 0, pl = 1, cl = 1, gel = 0,
      dr = 3, vxr = 10, vyr = 0, vzr = 0, pr = 1, cr = 1, ger = 0,
      pm = star_p ?star, um = star_u ?star, newton_iterations = iterations ?star,
      ds = - (3 / 2), us = - (1 / 2), ps = - (1 / 8)\<rparr>"
    by (rule exact_sampled_eq [OF _ _ _ _ _ _ _ _ _ _ _ _ refl sm]) simp_all
  then show ?thesis
    by simp
qed


end
